theory Spec2Isabelle
  imports Complex_Main "HOL-Library.Word"
begin

section \<open>The object detection tick of object\_detection.c\<close>

text \<open>
  The development embeds the per-tick function \<open>detect_objects\<close>, its helper
  \<open>get_coordinates\<close> and the label loader \<open>parseLabels\<close> of
  \<^verbatim>\<open>object-detection/app/object_detection.c\<close>.

  Numbers. An \<^verbatim>\<open>unsigned int\<close> is a 32-bit word. A finite C \<^verbatim>\<open>float\<close> is
  modelled by the real number it denotes. Every operation on floats (the conversion of an
  unsigned integer to float, a product, a sum, a difference) computes the exact real
  result and rounds it to the nearest binary32 value, ties to the even significand, each
  operation on its own. The conversion of a float to an integer type truncates towards
  zero and is undefined in C when the truncated value does not fit the target type; the
  model returns \<open>None\<close> there.
\<close>

subsection \<open>Numbers and constants\<close>

type_synonym float = real
type_synonym uint = "32 word"

definition CHANNELS :: nat where
  "CHANNELS = 3"

definition FLOATSIZE :: nat where
  "FLOATSIZE = 4"

definition TENSOR1SIZE :: nat where
  "TENSOR1SIZE = 80 * FLOATSIZE"

definition TENSOR2SIZE :: nat where
  "TENSOR2SIZE = 20 * FLOATSIZE"

definition TENSOR3SIZE :: nat where
  "TENSOR3SIZE = 20 * FLOATSIZE"

definition TENSOR4SIZE :: nat where
  "TENSOR4SIZE = 1 * FLOATSIZE"

definition OBJECT_OVERLAYS_MAX_LENGTH :: nat where
  "OBJECT_OVERLAYS_MAX_LENGTH = 5"

text \<open>
  Rounding to binary32. A nonzero real \<open>x\<close> with \<open>2 ^ k \<le> \<bar>x\<bar> < 2 ^ (k + 1)\<close> is rounded
  to a multiple of \<open>2 ^ (k - 23)\<close> (24 significant bits), and to a multiple of
  \<open>2 ^ (- 149)\<close> in the subnormal range. A result beyond the largest float is an infinity
  in C; the model keeps its finite value, which no conversion to an integer type accepts
  either.
\<close>

fun bit_length :: "nat \<Rightarrow> nat" where
  "bit_length n = (if n = 0 then 0 else Suc (bit_length (n div 2)))"

declare bit_length.simps [simp del]

text \<open>\<open>ilog2 x\<close> is the integer \<open>k\<close> with \<open>2 ^ k \<le> x < 2 ^ (k + 1)\<close>, for \<open>x > 0\<close>.\<close>

definition ilog2 :: "real \<Rightarrow> int" where
  "ilog2 x = (if 1 \<le> x then int (bit_length (nat \<lfloor>x\<rfloor>)) - 1
              else - int (bit_length (nat \<lceil>1 / x\<rceil> - 1)))"

definition pow2 :: "int \<Rightarrow> real" where
  "pow2 e = (if 0 \<le> e then 2 ^ nat e else 1 / 2 ^ nat (- e))"

text \<open>Rounding to the nearest integer, a tie to the even one.\<close>

definition round_even :: "real \<Rightarrow> int" where
  "round_even x =
     (let f = \<lfloor>x\<rfloor>; d = x - of_int f in
      if d < 1 / 2 then f else if 1 / 2 < d then f + 1 else if even f then f else f + 1)"

definition round32 :: "real \<Rightarrow> float" where
  "round32 x =
     (if x = 0 then 0
      else let e = max (ilog2 \<bar>x\<bar> - 23) (- 149) in of_int (round_even (x / pow2 e)) * pow2 e)"

text \<open>The float operations of C on two floats.\<close>

definition fmul :: "float \<Rightarrow> float \<Rightarrow> float" where
  "fmul a b = round32 (a * b)"

definition fadd :: "float \<Rightarrow> float \<Rightarrow> float" where
  "fadd a b = round32 (a + b)"

definition fsub :: "float \<Rightarrow> float \<Rightarrow> float" where
  "fsub a b = round32 (a - b)"

text \<open>The binary32 values: 24 significant bits, exponent of the last bit at least -149.\<close>

definition is_binary32 :: "real \<Rightarrow> bool" where
  "is_binary32 x \<longleftrightarrow> (\<exists>m k. x = of_int m * pow2 k \<and> \<bar>m\<bar> < 2 ^ 24 \<and> - 149 \<le> k)"

text \<open>Truncation towards zero, the rounding of C's float-to-integer conversions.\<close>

definition trunc_zero :: "float \<Rightarrow> int" where
  "trunc_zero q = (if 0 \<le> q then \<lfloor>q\<rfloor> else \<lceil>q\<rceil>)"

definition float_to_uint :: "float \<Rightarrow> uint option" where
  "float_to_uint q =
     (let t = trunc_zero q in if 0 \<le> t \<and> t < 2 ^ 32 then Some (word_of_int t) else None)"

definition float_to_int :: "float \<Rightarrow> int option" where
  "float_to_int q =
     (let t = trunc_zero q in if - (2 ^ 31) \<le> t \<and> t < 2 ^ 31 then Some t else None)"

text \<open>
  \<^verbatim>\<open>size_t\<close> has at least 32 bits on the targets of the application; the only float
  converted to it in the tick is at most 5.
\<close>

definition float_to_size_t :: "float \<Rightarrow> nat option" where
  "float_to_size_t q =
     (let t = trunc_zero q in if 0 \<le> t \<and> t < 2 ^ 32 then Some (nat t) else None)"

text \<open>The conversion of an \<^verbatim>\<open>unsigned int\<close> to float rounds above \<open>2 ^ 24\<close>.\<close>

definition uint_to_float :: "uint \<Rightarrow> float" where
  "uint_to_float u = round32 (of_nat (unat u))"

subsection \<open>The crop rectangle (lines 937--942 of \<open>detect_objects\<close>)\<close>

text \<open>
  \<^verbatim>\<open>
  unsigned int croppedWidthHD = heightFrameHD;
  unsigned int crop_x = left * croppedWidthHD + (widthFrameHD - heightFrameHD) / 2;
  unsigned int crop_y = top * heightFrameHD;
  unsigned int crop_w = (right - left) * croppedWidthHD;
  unsigned int crop_h = (bottom - top) * heightFrameHD;
  \<close>
  The offset \<^verbatim>\<open>(widthFrameHD - heightFrameHD) / 2\<close> is computed on unsigned integers
  (wrapping subtraction, integer division) and converted to float before it is added to
  the float product. The result is \<open>(crop_x, crop_y, crop_w, crop_h)\<close>.
\<close>

definition crop_rect ::
  "uint \<Rightarrow> uint \<Rightarrow> float \<Rightarrow> float \<Rightarrow> float \<Rightarrow> float \<Rightarrow> (uint \<times> uint \<times> uint \<times> uint) option" where
  "crop_rect widthFrameHD heightFrameHD b_top b_left b_bottom b_right =
     (let croppedWidthHD = heightFrameHD in
      case float_to_uint (fadd (fmul b_left (uint_to_float croppedWidthHD))
                               (uint_to_float ((widthFrameHD - heightFrameHD) div 2))) of
        None \<Rightarrow> None
      | Some crop_x \<Rightarrow>
      (case float_to_uint (fmul b_top (uint_to_float heightFrameHD)) of
        None \<Rightarrow> None
      | Some crop_y \<Rightarrow>
      (case float_to_uint (fmul (fsub b_right b_left) (uint_to_float croppedWidthHD)) of
        None \<Rightarrow> None
      | Some crop_w \<Rightarrow>
      (case float_to_uint (fmul (fsub b_bottom b_top) (uint_to_float heightFrameHD)) of
        None \<Rightarrow> None
      | Some crop_h \<Rightarrow> Some (crop_x, crop_y, crop_w, crop_h)))))"

text \<open>
  The rectangle of section 4.3 of the specification, as the specification words it:
  four real numbers, no rounding.
\<close>

definition spec_crop_rect ::
  "nat \<Rightarrow> nat \<Rightarrow> real \<Rightarrow> real \<Rightarrow> real \<Rightarrow> real \<Rightarrow> real \<times> real \<times> real \<times> real" where
  "spec_crop_rect hdWidth hdHeight b_top b_left b_bottom b_right =
     (b_left * of_nat hdHeight + (of_nat hdWidth - of_nat hdHeight) / 2,
      b_top * of_nat hdHeight,
      (b_right - b_left) * of_nat hdHeight,
      (b_bottom - b_top) * of_nat hdHeight)"

text \<open>
  Every float operation of the four expressions is exact on the box: the frame
  dimensions, the offset, and every product, sum and difference the expressions form are
  binary32 values.
\<close>

definition affine_map_exact :: "uint \<Rightarrow> uint \<Rightarrow> real \<Rightarrow> real \<Rightarrow> real \<Rightarrow> real \<Rightarrow> bool" where
  "affine_map_exact w h b_top b_left b_bottom b_right =
     (is_binary32 (real (unat h)) \<and> is_binary32 (real ((unat w - unat h) div 2))
      \<and> is_binary32 (b_left * real (unat h))
      \<and> is_binary32 (b_left * real (unat h) + real ((unat w - unat h) div 2))
      \<and> is_binary32 (b_top * real (unat h))
      \<and> is_binary32 (b_right - b_left) \<and> is_binary32 ((b_right - b_left) * real (unat h))
      \<and> is_binary32 (b_bottom - b_top) \<and> is_binary32 ((b_bottom - b_top) * real (unat h)))"

subsection \<open>\<open>get_coordinates\<close> (lines 232--276)\<close>

text \<open>
  The parameters \<^verbatim>\<open>frame_width\<close> and \<^verbatim>\<open>frame_height\<close> are only printed by the
  function; the rectangle is computed from the globals \<^verbatim>\<open>widthFrameHD\<close> and
  \<^verbatim>\<open>heightFrameHD\<close>. The four results are \<^verbatim>\<open>int\<close>s assigned from unsigned
  values: \<open>(out_top, out_left, out_bottom, out_right)\<close>.
\<close>

definition get_coordinates ::
  "uint \<Rightarrow> uint \<Rightarrow> uint \<Rightarrow> uint \<Rightarrow> float \<Rightarrow> float \<Rightarrow> float \<Rightarrow> float
    \<Rightarrow> (int \<times> int \<times> int \<times> int) option" where
  "get_coordinates widthFrameHD heightFrameHD frame_width frame_height
       b_top b_left b_bottom b_right =
     (let croppedWidthHD = heightFrameHD in
      case float_to_uint (fadd (fmul b_left (uint_to_float croppedWidthHD))
                               (uint_to_float ((widthFrameHD - heightFrameHD) div 2))) of
        None \<Rightarrow> None
      | Some crop_x \<Rightarrow>
      (case float_to_uint (fmul b_top (uint_to_float heightFrameHD)) of
        None \<Rightarrow> None
      | Some crop_y \<Rightarrow>
      (case float_to_uint (fmul (fsub b_right b_left) (uint_to_float croppedWidthHD)) of
        None \<Rightarrow> None
      | Some crop_w \<Rightarrow>
      (case float_to_uint (fmul (fsub b_bottom b_top) (uint_to_float heightFrameHD)) of
        None \<Rightarrow> None
      | Some crop_h \<Rightarrow>
          Some (sint crop_y, sint crop_x, sint (crop_y + crop_h), sint (crop_x + crop_w))))))"

subsection \<open>The world of one tick\<close>

text \<open>
  Behaviour that C leaves undefined is a fault of the model: a float conversion out of
  range, a read outside a mapped output buffer (tensor number and float index), a label
  lookup outside the label table, a \<^verbatim>\<open>strcpy\<close> of a label that does not fit
  \<^verbatim>\<open>class[50]\<close>, and (in \<open>parseLabels\<close>) a read or a write outside the heap buffer
  that holds the label file (byte offset). A fault ends the run of the model, except for
  the label lookup of the log line of line 945, whose value is only printed: the run goes
  on and the fault is recorded with the log line.
\<close>

datatype fault =
    FloatConversionUndefined
  | TensorReadOutOfBounds nat nat
  | LabelIndexOutOfBounds int
  | ClassBufferOverflow nat
  | HeapReadOutOfBounds nat
  | HeapWriteOutOfBounds nat

datatype outcome = Returned bool | Undefined fault

text \<open>
  The calls of \<open>detect_objects\<close> into the image providers, larod, the file system and
  the image utilities are recorded as events, in program order. The event of a job
  records the read positions of \<^verbatim>\<open>larodOutput1Fd\<close> .. \<^verbatim>\<open>larodOutput4Fd\<close> at the
  moment the job is started. The log line of a kept detection (line 945) is recorded with
  the index of the detection and what \<^verbatim>\<open>labels[(int)classes[i]]\<close> gives: the label, or
  the fault of the lookup.
\<close>

datatype provider = sdImageProvider | hdImageProvider

datatype job = ppReq | ppReqHD | infReq

datatype event =
    GetLastFrameBlocking provider
  | Memcpy provider
  | LarodRunJob job "nat \<times> nat \<times> nat \<times> nat"
  | Lseek nat
  | SyslogObject nat "fault + string"
  | CropInterleaved uint uint uint uint
  | JpegToFile nat
  | ReturnFrame provider

text \<open>
  What the outside world answers during one tick: whether each provider delivers a
  frame, whether each job and each \<^verbatim>\<open>lseek\<close> succeeds, where the inference job leaves
  the four output descriptors, and the contents of the four mapped output buffers after
  the inference job.
\<close>

record tick_env =
  sd_buf :: bool
  hd_buf :: bool
  ppReq_ok :: bool
  ppReqHD_ok :: bool
  lseek_ok :: "nat \<Rightarrow> bool"
  infReq_ok :: bool
  inf_pos :: "nat \<times> nat \<times> nat \<times> nat"
  locations :: "float list"
  classes :: "float list"
  scores :: "float list"
  numberOfDetections :: "float list"

text \<open>
  The globals fixed at startup. \<open>overlay_enabled\<close> is the build option
  \<^verbatim>\<open>ENABLE_OVERLAY || ENABLE_CV25_OVERLAY\<close>; \<open>labels\<close> is the label table, with
  \<^verbatim>\<open>numLabels\<close> its length.
\<close>

record config =
  widthFrameHD :: uint
  heightFrameHD :: uint
  threshold :: int
  labels :: "string list"
  overlay_enabled :: bool

text \<open>The struct \<^verbatim>\<open>ObjectOverlay\<close>; \<^verbatim>\<open>class\<close> is a buffer of 50 bytes.\<close>

record ObjectOverlay =
  o_top :: int
  o_bottom :: int
  o_left :: int
  o_right :: int
  o_class :: string
  o_score :: float
  bounding_box_id :: int
  text_id :: int

text \<open>
  The globals a tick changes: the read positions of the four output descriptors, the
  stream dimensions (written by the render callback between ticks), and the overlay
  array \<^verbatim>\<open>object_overlays[5]\<close> with its length.
\<close>

record pstate =
  out_pos :: "nat \<times> nat \<times> nat \<times> nat"
  stream_width :: int
  stream_height :: int
  object_overlays_length :: nat
  object_overlays :: "nat \<Rightarrow> ObjectOverlay"

text \<open>
  A mapped output buffer of \<open>size_bytes\<close> bytes read as \<^verbatim>\<open>float*\<close> at index \<open>k\<close>.
  The buffers are zero-filled when they are created, so a float that the environment
  does not list is 0.
\<close>

definition tensor_get :: "float list \<Rightarrow> nat \<Rightarrow> float" where
  "tensor_get buf k = (if k < length buf then buf ! k else 0)"

definition tensor_read :: "nat \<Rightarrow> float list \<Rightarrow> nat \<Rightarrow> float option" where
  "tensor_read size_bytes buf k =
     (if (k + 1) * FLOATSIZE \<le> size_bytes then Some (tensor_get buf k) else None)"

text \<open>\<^verbatim>\<open>labels[(int)classes[i]]\<close>: no comparison with \<^verbatim>\<open>numLabels\<close> is made.\<close>

definition label_lookup :: "string list \<Rightarrow> float \<Rightarrow> fault + string" where
  "label_lookup lbls cls =
     (case float_to_int cls of
        None \<Rightarrow> Inl FloatConversionUndefined
      | Some k \<Rightarrow>
          if 0 \<le> k \<and> k < int (length lbls) then Inr (lbls ! nat k)
          else Inl (LabelIndexOutOfBounds k))"

text \<open>The first float of the fourth output buffer, \<^verbatim>\<open>numberOfDetections[0]\<close>.\<close>

definition detection_count :: "tick_env \<Rightarrow> float" where
  "detection_count e = (case numberOfDetections e of [] \<Rightarrow> 0 | n # _ \<Rightarrow> n)"

subsection \<open>The crop and encode loop (lines 931--975)\<close>

text \<open>
  One iteration for index \<open>i\<close>: the four box components are read, the rectangle is
  computed, and when \<^verbatim>\<open>scores[i] >= threshold / 100.0\<close> the label is looked up and
  printed in the log line, the HD buffer is cropped to the rectangle as computed and the
  JPEG is written to \<^verbatim>\<open>/tmp/detection_<i>.jpg\<close>. The crop and the file do not depend
  on the label.
\<close>

definition crop_iteration :: "config \<Rightarrow> tick_env \<Rightarrow> nat \<Rightarrow> fault option \<times> event list" where
  "crop_iteration c e i =
     (case tensor_read TENSOR1SIZE (locations e) (4 * i) of
        None \<Rightarrow> (Some (TensorReadOutOfBounds 1 (4 * i)), [])
      | Some b_top \<Rightarrow>
     (case tensor_read TENSOR1SIZE (locations e) (4 * i + 1) of
        None \<Rightarrow> (Some (TensorReadOutOfBounds 1 (4 * i + 1)), [])
      | Some b_left \<Rightarrow>
     (case tensor_read TENSOR1SIZE (locations e) (4 * i + 2) of
        None \<Rightarrow> (Some (TensorReadOutOfBounds 1 (4 * i + 2)), [])
      | Some b_bottom \<Rightarrow>
     (case tensor_read TENSOR1SIZE (locations e) (4 * i + 3) of
        None \<Rightarrow> (Some (TensorReadOutOfBounds 1 (4 * i + 3)), [])
      | Some b_right \<Rightarrow>
     (case crop_rect (widthFrameHD c) (heightFrameHD c) b_top b_left b_bottom b_right of
        None \<Rightarrow> (Some FloatConversionUndefined, [])
      | Some (crop_x, crop_y, crop_w, crop_h) \<Rightarrow>
     (case tensor_read TENSOR3SIZE (scores e) i of
        None \<Rightarrow> (Some (TensorReadOutOfBounds 3 i), [])
      | Some score \<Rightarrow>
          if score \<ge> of_int (threshold c) / 100 then
            (case tensor_read TENSOR2SIZE (classes e) i of
               None \<Rightarrow> (Some (TensorReadOutOfBounds 2 i), [])
             | Some cls \<Rightarrow>
                 (None, [SyslogObject i (label_lookup (labels c) cls),
                         CropInterleaved crop_x crop_y crop_w crop_h, JpegToFile i]))
          else (None, [])))))))"

text \<open>
  \<^verbatim>\<open>for (int i = 0; i < numberOfDetections[0]; i++)\<close>: the counter is compared with
  the float count; nothing compares the count with the capacity of a buffer.
\<close>

function crop_loop :: "config \<Rightarrow> tick_env \<Rightarrow> nat \<Rightarrow> fault option \<times> event list" where
  "crop_loop c e i =
     (if of_nat i < detection_count e then
        (case crop_iteration c e i of
           (Some f, evs) \<Rightarrow> (Some f, evs)
         | (None, evs) \<Rightarrow>
             (case crop_loop c e (i + 1) of (r, evs') \<Rightarrow> (r, evs @ evs')))
      else (None, []))"
  by pat_completeness auto
termination
proof (relation "measure (\<lambda>(c, e, i). nat \<lceil>detection_count e\<rceil> - i)")
  show "wf (measure (\<lambda>(c, e, i). nat \<lceil>detection_count e\<rceil> - i))"
    by simp
next
  fix c :: config and e :: tick_env and i :: nat
  assume "of_nat i < detection_count e"
  then have "int i < \<lceil>detection_count e\<rceil>"
    by (simp add: less_ceiling_iff)
  then show "((c, e, i + 1), (c, e, i)) \<in> measure (\<lambda>(c, e, i). nat \<lceil>detection_count e\<rceil> - i)"
    by simp
qed

subsection \<open>The overlay records (lines 986--1011)\<close>

text \<open>
  One iteration for index \<open>i\<close>: the box is read, \<open>get_coordinates\<close> is called with the
  stream dimensions as \<^verbatim>\<open>frame_width\<close> and \<^verbatim>\<open>frame_height\<close> and writes the four
  coordinates of \<^verbatim>\<open>object_overlays[i]\<close>, the label is copied into \<^verbatim>\<open>class\<close> and the
  score is stored. The score is not compared with anything.
\<close>

definition overlay_iteration :: "config \<Rightarrow> tick_env \<Rightarrow> nat \<Rightarrow> pstate \<Rightarrow> fault option \<times> pstate" where
  "overlay_iteration c e i s =
     (case tensor_read TENSOR1SIZE (locations e) (4 * i) of
        None \<Rightarrow> (Some (TensorReadOutOfBounds 1 (4 * i)), s)
      | Some b_top \<Rightarrow>
     (case tensor_read TENSOR1SIZE (locations e) (4 * i + 1) of
        None \<Rightarrow> (Some (TensorReadOutOfBounds 1 (4 * i + 1)), s)
      | Some b_left \<Rightarrow>
     (case tensor_read TENSOR1SIZE (locations e) (4 * i + 2) of
        None \<Rightarrow> (Some (TensorReadOutOfBounds 1 (4 * i + 2)), s)
      | Some b_bottom \<Rightarrow>
     (case tensor_read TENSOR1SIZE (locations e) (4 * i + 3) of
        None \<Rightarrow> (Some (TensorReadOutOfBounds 1 (4 * i + 3)), s)
      | Some b_right \<Rightarrow>
     (case get_coordinates (widthFrameHD c) (heightFrameHD c)
             (word_of_int (stream_width s)) (word_of_int (stream_height s))
             b_top b_left b_bottom b_right of
        None \<Rightarrow> (Some FloatConversionUndefined, s)
      | Some (out_top, out_left, out_bottom, out_right) \<Rightarrow>
          let s1 = s\<lparr>object_overlays := (object_overlays s)
                       (i := (object_overlays s i)\<lparr>o_top := out_top, o_bottom := out_bottom,
                                                  o_left := out_left, o_right := out_right\<rparr>)\<rparr>
          in
     (case tensor_read TENSOR2SIZE (classes e) i of
        None \<Rightarrow> (Some (TensorReadOutOfBounds 2 i), s1)
      | Some cls \<Rightarrow>
     (case label_lookup (labels c) cls of
        Inl f \<Rightarrow> (Some f, s1)
      | Inr lbl \<Rightarrow>
          if 50 \<le> length lbl then (Some (ClassBufferOverflow (length lbl)), s1)
          else
     (case tensor_read TENSOR3SIZE (scores e) i of
        None \<Rightarrow> (Some (TensorReadOutOfBounds 3 i), s1)
      | Some score \<Rightarrow>
          (None, s1\<lparr>object_overlays := (object_overlays s1)
                      (i := (object_overlays s1 i)\<lparr>o_class := lbl, o_score := score\<rparr>)\<rparr>)))))))))"

text \<open>\<^verbatim>\<open>for (size_t i = 0; i < object_overlays_length; i++)\<close>\<close>

function overlay_loop :: "config \<Rightarrow> tick_env \<Rightarrow> nat \<Rightarrow> pstate \<Rightarrow> fault option \<times> pstate" where
  "overlay_loop c e i s =
     (if i < object_overlays_length s then
        (case overlay_iteration c e i s of
           (Some f, s') \<Rightarrow> (Some f, s')
         | (None, s') \<Rightarrow> overlay_loop c e (i + 1) s')
      else (None, s))"
  by pat_completeness auto
termination
  by (relation "measure (\<lambda>(c, e, i, s). object_overlays_length s - i)")
     (auto simp: overlay_iteration_def Let_def
           split: option.splits sum.splits if_splits prod.splits)

text \<open>
  \<^verbatim>\<open>object_overlays_length = numberOfDetections[0] < OBJECT_OVERLAYS_MAX_LENGTH
      ? numberOfDetections[0] : OBJECT_OVERLAYS_MAX_LENGTH;\<close>
  The conditional has type float and is converted to \<^verbatim>\<open>size_t\<close>.
\<close>

definition update_overlays :: "config \<Rightarrow> tick_env \<Rightarrow> pstate \<Rightarrow> fault option \<times> pstate" where
  "update_overlays c e s =
     (case float_to_size_t
             (if detection_count e < of_nat OBJECT_OVERLAYS_MAX_LENGTH then detection_count e
              else of_nat OBJECT_OVERLAYS_MAX_LENGTH) of
        None \<Rightarrow> (Some FloatConversionUndefined, s)
      | Some len \<Rightarrow> overlay_loop c e 0 (s\<lparr>object_overlays_length := len\<rparr>))"

subsection \<open>\<open>detect_objects\<close> (lines 841--1062)\<close>

text \<open>
  Lines 848--876: both frames are fetched, then each frame is copied into its input
  buffer and its preprocessing job is run. Every failure returns \<^verbatim>\<open>FALSE\<close> at once.
\<close>

definition acquire_and_preprocess :: "tick_env \<Rightarrow> pstate \<Rightarrow> bool \<times> event list" where
  "acquire_and_preprocess e s =
     (if \<not> sd_buf e then (False, [GetLastFrameBlocking sdImageProvider])
      else if \<not> hd_buf e then
        (False, [GetLastFrameBlocking sdImageProvider, GetLastFrameBlocking hdImageProvider])
      else if \<not> ppReq_ok e then
        (False, [GetLastFrameBlocking sdImageProvider, GetLastFrameBlocking hdImageProvider,
                 Memcpy sdImageProvider, LarodRunJob ppReq (out_pos s)])
      else if \<not> ppReqHD_ok e then
        (False, [GetLastFrameBlocking sdImageProvider, GetLastFrameBlocking hdImageProvider,
                 Memcpy sdImageProvider, LarodRunJob ppReq (out_pos s),
                 Memcpy hdImageProvider, LarodRunJob ppReqHD (out_pos s)])
      else
        (True, [GetLastFrameBlocking sdImageProvider, GetLastFrameBlocking hdImageProvider,
                Memcpy sdImageProvider, LarodRunJob ppReq (out_pos s),
                Memcpy hdImageProvider, LarodRunJob ppReqHD (out_pos s)]))"

text \<open>
  Lines 886--904: \<^verbatim>\<open>lseek(larodOutput<k>Fd, 0, SEEK_SET)\<close> for \<open>k = 1, 2, 3, 4\<close>; a
  successful call sets the position of that descriptor to 0, a failing one returns
  \<^verbatim>\<open>FALSE\<close> from the tick.
\<close>

definition rewind_outputs :: "tick_env \<Rightarrow> pstate \<Rightarrow> bool \<times> event list \<times> pstate" where
  "rewind_outputs e s =
     (case out_pos s of (p1, p2, p3, p4) \<Rightarrow>
        if \<not> lseek_ok e 1 then (False, [Lseek 1], s)
        else if \<not> lseek_ok e 2 then
          (False, [Lseek 1, Lseek 2], s\<lparr>out_pos := (0, p2, p3, p4)\<rparr>)
        else if \<not> lseek_ok e 3 then
          (False, [Lseek 1, Lseek 2, Lseek 3], s\<lparr>out_pos := (0, 0, p3, p4)\<rparr>)
        else if \<not> lseek_ok e 4 then
          (False, [Lseek 1, Lseek 2, Lseek 3, Lseek 4], s\<lparr>out_pos := (0, 0, 0, p4)\<rparr>)
        else
          (True, [Lseek 1, Lseek 2, Lseek 3, Lseek 4], s\<lparr>out_pos := (0, 0, 0, 0)\<rparr>))"

text \<open>
  Lines 921--1061, after a successful inference job. When the count converts to 0 the
  function returns \<^verbatim>\<open>TRUE\<close> at line 928. Otherwise the crop loop runs, then (when the
  overlay is compiled in) the overlay records are written, then both frames are given
  back to their providers and the function returns \<^verbatim>\<open>TRUE\<close>.
\<close>

definition post_process :: "config \<Rightarrow> tick_env \<Rightarrow> pstate \<Rightarrow> outcome \<times> event list \<times> pstate" where
  "post_process c e s =
     (case float_to_int (detection_count e) of
        None \<Rightarrow> (Undefined FloatConversionUndefined, [], s)
      | Some k \<Rightarrow>
          if k = 0 then (Returned True, [], s)
          else
            (case crop_loop c e 0 of
               (Some f, evs) \<Rightarrow> (Undefined f, evs, s)
             | (None, evs) \<Rightarrow>
                 if overlay_enabled c then
                   (case update_overlays c e s of
                      (Some f, s') \<Rightarrow> (Undefined f, evs, s')
                    | (None, s') \<Rightarrow>
                        (Returned True,
                         evs @ [ReturnFrame sdImageProvider, ReturnFrame hdImageProvider], s'))
                 else
                   (Returned True,
                    evs @ [ReturnFrame sdImageProvider, ReturnFrame hdImageProvider], s)))"

text \<open>The whole tick: its result, the events it caused, and the globals after it.\<close>

definition detect_objects :: "config \<Rightarrow> tick_env \<Rightarrow> pstate \<Rightarrow> outcome \<times> event list \<times> pstate" where
  "detect_objects c e s =
     (case acquire_and_preprocess e s of
        (False, evs1) \<Rightarrow> (Returned False, evs1, s)
      | (True, evs1) \<Rightarrow>
     (case rewind_outputs e s of
        (False, evs2, s2) \<Rightarrow> (Returned False, evs1 @ evs2, s2)
      | (True, evs2, s2) \<Rightarrow>
          if \<not> infReq_ok e then
            (Returned False, evs1 @ evs2 @ [LarodRunJob infReq (out_pos s2)], s2)
          else
            (case post_process c e (s2\<lparr>out_pos := inf_pos e\<rparr>) of
               (r, evs3, s3) \<Rightarrow>
                 (r, evs1 @ evs2 @ [LarodRunJob infReq (out_pos s2)] @ evs3, s3))))"

text \<open>The three components of the result of a tick.\<close>

definition tick_result :: "config \<Rightarrow> tick_env \<Rightarrow> pstate \<Rightarrow> outcome" where
  "tick_result c e s = fst (detect_objects c e s)"

definition tick_events :: "config \<Rightarrow> tick_env \<Rightarrow> pstate \<Rightarrow> event list" where
  "tick_events c e s = fst (snd (detect_objects c e s))"

definition tick_state :: "config \<Rightarrow> tick_env \<Rightarrow> pstate \<Rightarrow> pstate" where
  "tick_state c e s = snd (snd (detect_objects c e s))"

text \<open>Every external call of the tick up to and including the inference job succeeds.\<close>

definition externals_ok :: "tick_env \<Rightarrow> bool" where
  "externals_ok e =
     (sd_buf e \<and> hd_buf e \<and> ppReq_ok e \<and> ppReqHD_ok e
      \<and> lseek_ok e 1 \<and> lseek_ok e 2 \<and> lseek_ok e 3 \<and> lseek_ok e 4 \<and> infReq_ok e)"

text \<open>The events of a tick up to and including the start of the inference job.\<close>

definition events_to_inference :: "pstate \<Rightarrow> event list" where
  "events_to_inference s =
     [GetLastFrameBlocking sdImageProvider, GetLastFrameBlocking hdImageProvider,
      Memcpy sdImageProvider, LarodRunJob ppReq (out_pos s),
      Memcpy hdImageProvider, LarodRunJob ppReqHD (out_pos s),
      Lseek 1, Lseek 2, Lseek 3, Lseek 4, LarodRunJob infReq (0, 0, 0, 0)]"

subsection \<open>\<open>parseLabels\<close> (lines 580--704)\<close>

text \<open>
  The label file as the loader meets it: whether \<^verbatim>\<open>stat\<close>, \<^verbatim>\<open>open\<close>, the two
  \<^verbatim>\<open>malloc\<close>s and the \<^verbatim>\<open>read\<close> loop succeed, and the bytes of the file
  (\<^verbatim>\<open>st_size\<close> is their number).
\<close>

record label_file =
  stat_ok :: bool
  open_ok :: bool
  malloc_data_ok :: bool
  read_ok :: bool
  malloc_array_ok :: bool
  contents :: string

definition NUL :: char where
  "NUL = CHR 0x00"

definition newline :: char where
  "newline = CHR 0x0A"

definition LINE_MAX_LEN :: nat where
  "LINE_MAX_LEN = 60"

text \<open>\<^verbatim>\<open>strnlen(p, n)\<close> on the bytes that start at \<open>p\<close>.\<close>

definition strnlen :: "string \<Rightarrow> nat \<Rightarrow> nat" where
  "strnlen p n = length (takeWhile (\<lambda>ch. ch \<noteq> NUL) (take n p))"

text \<open>The C string that starts at offset \<open>off\<close> of the buffer.\<close>

definition c_string :: "string \<Rightarrow> nat \<Rightarrow> string" where
  "c_string buf off = takeWhile (\<lambda>ch. ch \<noteq> NUL) (drop off buf)"

text \<open>
  Lines 683--689, over the label starts in order:
  \<^verbatim>\<open>
  size_t stringLen = strnlen(labelArray[i], LINE_MAX_LEN);
  if (stringLen >= LINE_MAX_LEN) {
      *(labelArray[i] + LINE_MAX_LEN + 1) = '\0';
  }
  \<close>
  The buffer has \<^verbatim>\<open>labelsFileSize + 1\<close> bytes; a write at a larger offset is outside it.
\<close>

fun cap_labels :: "nat list \<Rightarrow> string \<Rightarrow> fault + string" where
  "cap_labels [] buf = Inr buf"
| "cap_labels (off # offs) buf =
     (let stringLen = strnlen (drop off buf) LINE_MAX_LEN in
      if stringLen \<ge> LINE_MAX_LEN then
        if off + LINE_MAX_LEN + 1 < length buf
        then cap_labels offs (buf[off + LINE_MAX_LEN + 1 := NUL])
        else Inl (HeapWriteOutOfBounds (off + LINE_MAX_LEN + 1))
      else cap_labels offs buf)"

text \<open>
  The result is \<open>Inr None\<close> when the function returns \<^verbatim>\<open>false\<close>, \<open>Inr (Some ls)\<close> when
  it returns \<^verbatim>\<open>true\<close> with the label table \<open>ls\<close> (\<^verbatim>\<open>numLabels\<close> is its length), and
  \<open>Inl\<close> a fault when it leaves the heap buffer. For an empty file the read loop of
  line 631 does not run, \<^verbatim>\<open>labelsFileSize - 1\<close> wraps around and the line-counting
  loop reads past the one byte that was allocated.
\<close>

definition parseLabels :: "label_file \<Rightarrow> fault + string list option" where
  "parseLabels f =
     (let labelsFileSize = length (contents f) in
      if \<not> stat_ok f then Inr None
      else if labelsFileSize > 10 * 1024 * 1024 then Inr None
      else if \<not> open_ok f then Inr None
      else if \<not> malloc_data_ok f then Inr None
      else if labelsFileSize = 0 then Inl (HeapReadOutOfBounds 1)
      else if \<not> read_ok f then Inr None
      else
        let numLines = length [i \<leftarrow> [0 ..< labelsFileSize - 1]. contents f ! i = newline] + 1 in
        if \<not> malloc_array_ok f then Inr None
        else
          let labelArray = 0 # [i + 1. i \<leftarrow> [0 ..< labelsFileSize],
                                 contents f ! i = newline \<and> i < labelsFileSize - 1];
              labelsData = map (\<lambda>ch. if ch = newline then NUL else ch) (contents f) @ [NUL]
          in
            (case cap_labels (take numLines labelArray) labelsData of
               Inl flt \<Rightarrow> Inl flt
             | Inr buf \<Rightarrow> Inr (Some (map (c_string buf) (take numLines labelArray)))))"

subsection \<open>Concrete ticks\<close>

text \<open>
  A camera with a 1280 x 720 HD frame, a threshold of 50 percent, two labels and the
  overlay compiled in; a tick in which every external call succeeds and the inference
  leaves the given output buffers; the globals before the first tick.
\<close>

definition hd_config :: config where
  "hd_config = \<lparr>widthFrameHD = 1280, heightFrameHD = 720, threshold = 50,
                 labels = [''person'', ''car''], overlay_enabled = True\<rparr>"

definition good_tick :: "float list \<Rightarrow> float list \<Rightarrow> float list \<Rightarrow> float list \<Rightarrow> tick_env" where
  "good_tick locs cls scs cnt =
     \<lparr>sd_buf = True, hd_buf = True, ppReq_ok = True, ppReqHD_ok = True,
      lseek_ok = (\<lambda>k. True), infReq_ok = True, inf_pos = (320, 80, 80, 4),
      locations = locs, classes = cls, scores = scs, numberOfDetections = cnt\<rparr>"

definition no_overlay :: ObjectOverlay where
  "no_overlay = \<lparr>o_top = 0, o_bottom = 0, o_left = 0, o_right = 0, o_class = [],
                  o_score = 0, bounding_box_id = 0, text_id = 0\<rparr>"

definition first_state :: pstate where
  "first_state = \<lparr>out_pos = (0, 0, 0, 0), stream_width = 1280, stream_height = 720,
                   object_overlays_length = 0, object_overlays = (\<lambda>i. no_overlay)\<rparr>"

text \<open>The globals after an earlier tick that left overlay records and moved the output
  descriptors.\<close>

definition later_state :: pstate where
  "later_state = \<lparr>out_pos = (320, 80, 80, 4), stream_width = 1280, stream_height = 720,
                   object_overlays_length = 1,
                   object_overlays = (\<lambda>i. no_overlay\<lparr>o_top := 180, o_bottom := 540,
                       o_left := 460, o_right := 820, o_class := ''person'', o_score := 3 / 4\<rparr>)\<rparr>"

text \<open>
  The same camera when \<^verbatim>\<open>chooseStreamResolution\<close> (lines 1197--1200) answers the
  request for 1280 x 720 with a 1920 x 1080 HD stream; and a build without the overlay.
\<close>

definition full_hd_config :: config where
  "full_hd_config = hd_config\<lparr>widthFrameHD := 1920, heightFrameHD := 1080\<rparr>"

definition plain_config :: config where
  "plain_config = hd_config\<lparr>overlay_enabled := False\<rparr>"

text \<open>A successful tick that reports seven detections, all of score 0.\<close>

definition seven_detections :: tick_env where
  "seven_detections = good_tick [] [] [] [7]"

text \<open>The float nearest to 0.7, the value of the C literal \<^verbatim>\<open>0.7f\<close>.\<close>

definition f07 :: float where
  "f07 = 11744051 / 16777216"

text \<open>A label file of one line of 62 letters, ended by a newline; every call succeeds.\<close>

definition readable_file :: "string \<Rightarrow> label_file" where
  "readable_file cs = \<lparr>stat_ok = True, open_ok = True, malloc_data_ok = True, read_ok = True,
                        malloc_array_ok = True, contents = cs\<rparr>"

definition long_line_file :: label_file where
  "long_line_file =
     readable_file (''aaaaaaaaaaaaaaaaaaaaaaaaaaaaaaaaaaaaaaaaaaaaaaaaaaaaaaaaaaaaaa'' @ [newline])"

text \<open>A tick in which the third \<^verbatim>\<open>lseek\<close> fails.\<close>

definition failing_rewind_tick :: tick_env where
  "failing_rewind_tick =
     (good_tick [1 / 4, 1 / 4, 3 / 4, 3 / 4] [0] [3 / 4] [1])\<lparr>lseek_ok := (\<lambda>k. k \<noteq> 3)\<rparr>"

text \<open>
  A successful tick with one detection, the box (0.25, 0.25, 0.75, 0.75), of the given
  class and score.
\<close>

definition one_detection :: "float \<Rightarrow> float \<Rightarrow> tick_env" where
  "one_detection cls score = good_tick [1 / 4, 1 / 4, 3 / 4, 3 / 4] [cls] [score] [1]"

section \<open>Properties\<close>

lemmas tick_defs =
  tick_result_def tick_events_def tick_state_def externals_ok_def events_to_inference_def
  detect_objects_def acquire_and_preprocess_def rewind_outputs_def post_process_def
  detection_count_def float_to_int_def trunc_zero_def crop_iteration_def tensor_read_def
  tensor_get_def TENSOR1SIZE_def TENSOR2SIZE_def TENSOR3SIZE_def FLOATSIZE_def crop_rect_def
  float_to_uint_def uint_to_float_def label_lookup_def update_overlays_def float_to_size_t_def
  OBJECT_OVERLAYS_MAX_LENGTH_def overlay_iteration_def get_coordinates_def hd_config_def
  good_tick_def first_state_def later_state_def no_overlay_def full_hd_config_def
  plain_config_def seven_detections_def fmul_def fadd_def fsub_def round32_def round_even_def
  pow2_def ilog2_def bit_length.simps Let_def
  one_detection_def failing_rewind_tick_def crop_loop.simps overlay_loop.simps

subsection \<open>Rounding to binary32\<close>

lemma pow2_powi: "pow2 e = 2 powi e"
  by (simp add: pow2_def power_int_def inverse_eq_divide power_one_over)

lemma pow2_pos: "0 < pow2 e"
  by (simp add: pow2_powi)

lemma pow2_add: "pow2 (a + b) = pow2 a * pow2 b"
  by (simp add: pow2_powi power_int_add)

lemma pow2_nat: "0 \<le> e \<Longrightarrow> pow2 e = 2 ^ nat e"
  by (simp add: pow2_def)

lemma pow2_strict_mono: "a < b \<Longrightarrow> pow2 a < pow2 b"
  by (simp add: pow2_powi power_int_strict_increasing)

lemma pow2_less_cancel: "pow2 a < pow2 b \<Longrightarrow> a < b"
  using pow2_strict_mono [of b a] by (cases a b rule: linorder_cases) auto

lemma bit_length_pos: "0 < n \<Longrightarrow> 0 < bit_length n"
  by (subst bit_length.simps) simp

lemma bit_length_bounds:
  "0 < n \<Longrightarrow> 2 ^ (bit_length n - 1) \<le> n \<and> n < 2 ^ bit_length n"
proof (induction n rule: bit_length.induct)
  case (1 n)
  show ?case
  proof (cases "n div 2 = 0")
    case True
    with "1.prems" have "n = 1" by (simp add: div_eq_0_iff) 
    then show ?thesis by (simp add: bit_length.simps)
  next
    case False
    then have pos: "0 < n div 2" by simp
    from "1.prems" have n0: "n \<noteq> 0" by simp
    from "1.IH" [OF n0 pos]
    have lo: "2 ^ (bit_length (n div 2) - 1) \<le> n div 2"
      and hi: "n div 2 < 2 ^ bit_length (n div 2)" by simp_all
    have bl: "bit_length n = Suc (bit_length (n div 2))"
      using n0 by (simp add: bit_length.simps [of n])
    have blpos: "0 < bit_length (n div 2)"
      using pos by (rule bit_length_pos)
    then obtain j where j: "bit_length (n div 2) = Suc j" by (cases "bit_length (n div 2)") auto
    from lo j have "2 * 2 ^ j \<le> 2 * (n div 2)" by simp
    also have "\<dots> \<le> n" by simp
    finally have lo': "2 ^ (bit_length n - 1) \<le> n" using bl j by simp
    from hi have "n div 2 + 1 \<le> 2 ^ bit_length (n div 2)" by simp
    then have "2 * (n div 2) + 2 \<le> 2 * 2 ^ bit_length (n div 2)" by simp
    moreover have "n < 2 * (n div 2) + 2" by presburger
    ultimately have "n < 2 ^ bit_length n" using bl by simp
    with lo' show ?thesis by simp
  qed
qed

lemma ilog2_bounds:
  assumes "0 < x"
  shows "pow2 (ilog2 x) \<le> x \<and> x < pow2 (ilog2 x + 1)"
proof (cases "1 \<le> x")
  case True
  define n where "n = nat \<lfloor>x\<rfloor>"
  from True have n1: "0 < n" unfolding n_def by simp
  from True have nx: "real n \<le> x" and xn: "x < real n + 1"
    unfolding n_def by (simp_all add: of_nat_nat)
  from bit_length_bounds [OF n1]
  have lo: "2 ^ (bit_length n - 1) \<le> n" and hi: "n < 2 ^ bit_length n" by simp_all
  have blpos: "0 < bit_length n" using n1 by (rule bit_length_pos)
  have il: "ilog2 x = int (bit_length n) - 1" using True by (simp add: ilog2_def n_def)
  have p1: "pow2 (ilog2 x) = 2 ^ (bit_length n - 1)"
    using blpos by (simp add: il pow2_def nat_diff_distrib)
  have p2: "pow2 (ilog2 x + 1) = 2 ^ bit_length n"
    by (simp add: il pow2_def)
  from lo have "real (2 ^ (bit_length n - 1)) \<le> real n" by (rule iffD2 [OF of_nat_le_iff])
  then have "(2 :: real) ^ (bit_length n - 1) \<le> real n" by simp
  then have a: "pow2 (ilog2 x) \<le> x" using nx p1 by linarith
  from hi have "n + 1 \<le> 2 ^ bit_length n" by simp
  then have "real (n + 1) \<le> real (2 ^ bit_length n)" by (rule iffD2 [OF of_nat_le_iff])
  then have "real n + 1 \<le> (2 :: real) ^ bit_length n" by simp
  then have b: "x < pow2 (ilog2 x + 1)" using xn p2 by linarith
  from a b show ?thesis by simp
next
  case False
  define y where "y = 1 / x"
  from False assms have y1: "1 < y" unfolding y_def by simp
  define m where "m = nat \<lceil>y\<rceil>"
  from y1 have c2: "2 \<le> \<lceil>y\<rceil>" by (simp add: le_ceiling_iff)
  then have m2: "2 \<le> m" unfolding m_def by linarith
  from c2 have rm: "real m = of_int \<lceil>y\<rceil>" unfolding m_def by simp
  have ym: "y \<le> real m" unfolding rm by (rule le_of_int_ceiling)
  have my: "real m - 1 < y" unfolding rm using ceiling_correct [of y] by simp
  from m2 have mpos: "0 < m - 1" by simp
  define j where "j = bit_length (m - 1)"
  from bit_length_bounds [OF mpos]
  have lo: "2 ^ (j - 1) \<le> m - 1" and hi: "m - 1 < 2 ^ j" unfolding j_def by simp_all
  have jpos: "0 < j" unfolding j_def using mpos by (rule bit_length_pos)
  have il: "ilog2 x = - int j" using False by (simp add: ilog2_def j_def m_def y_def)
  from hi have "m \<le> 2 ^ j" by simp
  then have "real m \<le> real (2 ^ j)" by (rule iffD2 [OF of_nat_le_iff])
  then have "real m \<le> (2 :: real) ^ j" by simp
  then have yhi: "y \<le> 2 ^ j" using ym by linarith
  from lo have "real (2 ^ (j - 1)) \<le> real (m - 1)" by (rule iffD2 [OF of_nat_le_iff])
  then have "(2 :: real) ^ (j - 1) \<le> real m - 1" using m2 by (simp add: of_nat_diff)
  then have ylo: "2 ^ (j - 1) < y" using my by linarith
  have xy: "x = 1 / y" unfolding y_def by simp
  have ypos: "0 < y" using y1 by simp
  have a: "pow2 (ilog2 x) \<le> x"
  proof -
    have "pow2 (- int j) = 1 / 2 ^ j" using jpos by (simp add: pow2_def)
    also have "\<dots> \<le> 1 / y" using yhi ypos by (simp add: frac_le)
    finally have "pow2 (- int j) \<le> 1 / y" .
    then show ?thesis by (simp only: il xy [symmetric])
  qed
  have b: "x < pow2 (ilog2 x + 1)"
  proof -
    have "1 / y < 1 / 2 ^ (j - 1)" using ylo by (simp add: frac_less2)
    also have "\<dots> = pow2 (- int j + 1)"
      using jpos by (cases j) (auto simp: pow2_def nat_diff_distrib)
    finally have "1 / y < pow2 (- int j + 1)" .
    then show ?thesis by (simp only: il xy [symmetric])
  qed
  from a b show ?thesis by simp
qed

lemma round_even_of_int: "round_even (of_int n) = n"
  by (simp add: round_even_def)

lemma round32_exact:
  assumes "is_binary32 x"
  shows "round32 x = x"
proof (cases "x = 0")
  case True
  then show ?thesis by (simp add: round32_def)
next
  case False
  from assms obtain m k where x: "x = of_int m * pow2 k" and m: "\<bar>m\<bar> < 2 ^ 24" and k: "- 149 \<le> k"
    unfolding is_binary32_def by blast
  define e where "e = max (ilog2 \<bar>x\<bar> - 23) (- 149)"
  have xpos: "0 < \<bar>x\<bar>" using False by simp
  from ilog2_bounds [OF xpos] have lo: "pow2 (ilog2 \<bar>x\<bar>) \<le> \<bar>x\<bar>" by simp
  have "\<bar>x\<bar> = of_int \<bar>m\<bar> * pow2 k" using x pow2_pos [of k] by (simp add: abs_mult)
  also have "\<dots> < 2 ^ 24 * pow2 k"
  proof -
    from m have "real_of_int \<bar>m\<bar> < real_of_int (2 ^ 24)" by (rule iffD2 [OF of_int_less_iff])
    then show ?thesis using pow2_pos [of k] by simp
  qed
  also have "\<dots> = pow2 (24 + k)"
  proof -
    have "pow2 24 = 2 ^ 24" by (simp add: pow2_def)
    then show ?thesis by (simp add: pow2_add)
  qed
  finally have "pow2 (ilog2 \<bar>x\<bar>) < pow2 (24 + k)" using lo by simp
  then have "ilog2 \<bar>x\<bar> < 24 + k" by (rule pow2_less_cancel)
  with k have ek: "e \<le> k" unfolding e_def by simp
  have "pow2 k = pow2 (k - e) * pow2 e" using pow2_add [of "k - e" e] by simp
  also have "pow2 (k - e) = 2 ^ nat (k - e)" using ek by (simp add: pow2_nat)
  finally have pk: "pow2 k = 2 ^ nat (k - e) * pow2 e" .
  have "x / pow2 e = of_int m * 2 ^ nat (k - e)"
    using pow2_pos [of e] by (simp add: x pk)
  also have "\<dots> = of_int (m * 2 ^ nat (k - e))" by simp
  finally have q: "x / pow2 e = of_int (m * 2 ^ nat (k - e))" .
  have "round32 x = of_int (round_even (x / pow2 e)) * pow2 e"
    using False by (simp add: round32_def e_def Let_def)
  also have "\<dots> = of_int (m * 2 ^ nat (k - e)) * pow2 e"
    by (simp only: q round_even_of_int)
  also have "\<dots> = x" by (simp add: x pk)
  finally show ?thesis .
qed

lemma is_binary32_nat: "n < 2 ^ 24 \<Longrightarrow> is_binary32 (real n)"
  unfolding is_binary32_def
  by (intro exI [of _ "int n"] exI [of _ 0]) (simp add: pow2_def)

lemma is_binary32_ratio:
  assumes "\<bar>m\<bar> < 2 ^ 24" and "k \<le> 149"
  shows "is_binary32 (real_of_int m / 2 ^ k)"
proof -
  have "real_of_int m / 2 ^ k = of_int m * pow2 (- int k)"
    by (simp add: pow2_powi power_int_minus divide_inverse)
  moreover have "- 149 \<le> - int k" using assms(2) by simp
  ultimately show ?thesis
    unfolding is_binary32_def using assms(1) by blast
qed

subsection \<open>Conversions\<close>

lemma float_to_uint_floor:
  assumes "0 \<le> q" and "q < 2 ^ 32"
  shows "float_to_uint q = Some (word_of_int \<lfloor>q\<rfloor>)"
proof -
  have "0 \<le> \<lfloor>q\<rfloor>" using assms(1) by simp
  moreover have "\<lfloor>q\<rfloor> < 2 ^ 32" using assms(2) by (simp add: floor_less_iff)
  ultimately show ?thesis using assms(1) by (simp add: float_to_uint_def trunc_zero_def)
qed

lemma unat_word_of_floor:
  assumes "0 \<le> q" and "q < 2 ^ 32"
  shows "int (unat (word_of_int \<lfloor>q\<rfloor> :: uint)) = \<lfloor>q\<rfloor>"
proof -
  have "0 \<le> \<lfloor>q\<rfloor>" using assms(1) by simp
  moreover have "\<lfloor>q\<rfloor> < 2 ^ 32" using assms(2) by (simp add: floor_less_iff)
  ultimately show ?thesis
    by (simp add: unat_eq_nat_uint uint_word_of_int take_bit_int_eq_self)
qed

lemma crop_offset:
  assumes "h \<le> w"
  shows "real (unat ((w - h) div 2 :: uint)) = real ((unat w - unat h) div 2)"
  using assms by (simp add: unat_div unat_sub)

lemma unat_lt_32: "real (unat (u :: uint)) < 2 ^ 32"
proof -
  have "unat u < 2 ^ 32" using unsigned_less [of u, where 'a = nat] by simp
  then have "real (unat u) < real (2 ^ 32)" by (rule iffD2 [OF of_nat_less_iff])
  then show ?thesis by simp
qed

subsection \<open>The crop rectangle where the float operations are exact\<close>

lemma crop_rect_exact:
  assumes hw: "h \<le> w"
    and ex: "affine_map_exact w h t l b r"
    and t: "0 \<le> t" "t \<le> b" "b \<le> 1"
    and l: "0 \<le> l" "l \<le> r" "r \<le> 1"
  shows "\<exists>cx cy cw ch. crop_rect w h t l b r = Some (cx, cy, cw, ch)
           \<and> int (unat cx) = \<lfloor>l * real (unat h) + real ((unat w - unat h) div 2)\<rfloor>
           \<and> int (unat cy) = \<lfloor>t * real (unat h)\<rfloor>
           \<and> int (unat cw) = \<lfloor>(r - l) * real (unat h)\<rfloor>
           \<and> int (unat ch) = \<lfloor>(b - t) * real (unat h)\<rfloor>"
proof -
  define H where "H = real (unat h)"
  define off where "off = real ((unat w - unat h) div 2)"
  from ex have eH: "round32 H = H" and eoff: "round32 off = off"
    and e1: "round32 (l * H) = l * H" and e2: "round32 (l * H + off) = l * H + off"
    and e3: "round32 (t * H) = t * H"
    and e4: "round32 (r - l) = r - l" and e5: "round32 ((r - l) * H) = (r - l) * H"
    and e6: "round32 (b - t) = b - t" and e7: "round32 ((b - t) * H) = (b - t) * H"
    unfolding affine_map_exact_def H_def off_def by (simp_all add: round32_exact)
  have H0: "0 \<le> H" unfolding H_def by (rule of_nat_0_le_iff)
  have H32: "H < 2 ^ 32" unfolding H_def by (rule unat_lt_32)
  have off0: "0 \<le> off" unfolding off_def by (rule of_nat_0_le_iff)
  have le1: "x * H \<le> H" if "x \<le> 1" for x :: real
    using mult_right_mono [OF that H0] by simp
  have hw': "unat h \<le> unat w" using hw by (simp add: word_le_nat_alt)
  have "(unat w - unat h) div 2 + unat h \<le> unat w" using hw' by simp
  then have "real ((unat w - unat h) div 2 + unat h) \<le> real (unat w)"
    by (rule iffD2 [OF of_nat_le_iff])
  then have "off + H \<le> real (unat w)"
    unfolding off_def H_def by (simp only: of_nat_add)
  then have off: "H + off < 2 ^ 32" using unat_lt_32 [of w] by linarith
  have x0: "0 \<le> l * H + off" using l(1) H0 off0 by simp
  have "l \<le> 1" using l by simp
  then have x32: "l * H + off < 2 ^ 32" using le1 [of l] off by linarith
  have y0: "0 \<le> t * H" using t(1) H0 by simp
  have "t \<le> 1" using t by simp
  then have y32: "t * H < 2 ^ 32" using le1 [of t] H32 by linarith
  have w0: "0 \<le> (r - l) * H" using l(2) H0 by simp
  have "r - l \<le> 1" using l by simp
  then have w32: "(r - l) * H < 2 ^ 32" using le1 [of "r - l"] H32 by linarith
  have h0: "0 \<le> (b - t) * H" using t(2) H0 by simp
  have "b - t \<le> 1" using t by simp
  then have h32: "(b - t) * H < 2 ^ 32" using le1 [of "b - t"] H32 by linarith
  have ux: "uint_to_float h = H" by (simp only: uint_to_float_def H_def [symmetric] eH)
  have uo: "uint_to_float ((w - h) div 2) = off"
    by (simp only: uint_to_float_def crop_offset [OF hw] off_def [symmetric] eoff)
  have "crop_rect w h t l b r =
           Some (word_of_int \<lfloor>l * H + off\<rfloor>, word_of_int \<lfloor>t * H\<rfloor>,
                 word_of_int \<lfloor>(r - l) * H\<rfloor>, word_of_int \<lfloor>(b - t) * H\<rfloor>)"
    unfolding crop_rect_def Let_def ux uo fmul_def fadd_def fsub_def e1 e2 e3 e4 e5 e6 e7
    by (simp only: float_to_uint_floor [OF x0 x32] float_to_uint_floor [OF y0 y32]
          float_to_uint_floor [OF w0 w32] float_to_uint_floor [OF h0 h32] option.case)
  moreover note unat_word_of_floor [OF x0 x32] unat_word_of_floor [OF y0 y32]
    unat_word_of_floor [OF w0 w32] unat_word_of_floor [OF h0 h32]
  ultimately show ?thesis unfolding H_def off_def by blast
qed


lemma affine_map_exact_example:
  "affine_map_exact 1280 720 (1 / 4) (1 / 1024) (3 / 4) (3 / 4)"
proof -
  have "is_binary32 720" using is_binary32_ratio [of 720 0] by simp
  moreover have "is_binary32 280" using is_binary32_ratio [of 280 0] by simp
  moreover have "is_binary32 (45 / 64)" using is_binary32_ratio [of 45 6] by simp
  moreover have "is_binary32 (17965 / 64)" using is_binary32_ratio [of 17965 6] by simp
  moreover have "is_binary32 180" using is_binary32_ratio [of 180 0] by simp
  moreover have "is_binary32 (767 / 1024)" using is_binary32_ratio [of 767 10] by simp
  moreover have "is_binary32 (34515 / 64)" using is_binary32_ratio [of 34515 6] by simp
  moreover have "is_binary32 (1 / 2)" using is_binary32_ratio [of 1 1] by simp
  moreover have "is_binary32 360" using is_binary32_ratio [of 360 0] by simp
  ultimately show ?thesis by (simp add: affine_map_exact_def)
qed

text \<open>
  Claim C1, as amended. The crop rectangle is the affine map evaluated as C evaluates it:
  the horizontal offset by unsigned integer division, every other operation in binary32
  arithmetic, each component truncated to an unsigned integer. For a box with
  \<open>0 \<le> top \<le> bottom \<le> 1\<close> and \<open>0 \<le> left \<le> right \<le> 1\<close>, an HD frame at least as wide
  as high, and float operations that are exact on the box, the rectangle is
  \<open>cropX = \<lfloor>left * hdHeight + (hdWidth - hdHeight) div 2\<rfloor>\<close>,
  \<open>cropY = \<lfloor>top * hdHeight\<rfloor>\<close>, \<open>cropWidth = \<lfloor>(right - left) * hdHeight\<rfloor>\<close>,
  \<open>cropHeight = \<lfloor>(bottom - top) * hdHeight\<rfloor>\<close>. For the box (0.25, 0.25, 0.75, 0.75)
  on a 1280 x 720 frame the rectangle is (460, 180, 360, 360).
\<close>

theorem crop_rect_truncated_affine_map:
  "(h \<le> w \<and> affine_map_exact w h t l b r
      \<and> 0 \<le> t \<and> t \<le> b \<and> b \<le> 1 \<and> 0 \<le> l \<and> l \<le> r \<and> r \<le> 1 \<longrightarrow>
      (\<exists>cx cy cw ch. crop_rect w h t l b r = Some (cx, cy, cw, ch)
         \<and> int (unat cx) = \<lfloor>l * real (unat h) + real ((unat w - unat h) div 2)\<rfloor>
         \<and> int (unat cy) = \<lfloor>t * real (unat h)\<rfloor>
         \<and> int (unat cw) = \<lfloor>(r - l) * real (unat h)\<rfloor>
         \<and> int (unat ch) = \<lfloor>(b - t) * real (unat h)\<rfloor>))
   \<and> crop_rect 1280 720 (1 / 4) (1 / 4) (3 / 4) (3 / 4) = Some (460, 180, 360, 360)"
proof (intro conjI impI)
  assume "h \<le> w \<and> affine_map_exact w h t l b r
      \<and> 0 \<le> t \<and> t \<le> b \<and> b \<le> 1 \<and> 0 \<le> l \<and> l \<le> r \<and> r \<le> 1"
  then have hw: "h \<le> w" and ex: "affine_map_exact w h t l b r"
    and t: "0 \<le> t" "t \<le> b" "b \<le> 1" and l: "0 \<le> l" "l \<le> r" "r \<le> 1"
    by simp_all
  show "\<exists>cx cy cw ch. crop_rect w h t l b r = Some (cx, cy, cw, ch)
         \<and> int (unat cx) = \<lfloor>l * real (unat h) + real ((unat w - unat h) div 2)\<rfloor>
         \<and> int (unat cy) = \<lfloor>t * real (unat h)\<rfloor>
         \<and> int (unat cw) = \<lfloor>(r - l) * real (unat h)\<rfloor>
         \<and> int (unat ch) = \<lfloor>(b - t) * real (unat h)\<rfloor>"
    by (rule crop_rect_exact [OF hw ex t l])
next
  show "crop_rect 1280 720 (1 / 4) (1 / 4) (3 / 4) (3 / 4) = Some (460, 180, 360, 360)"
    by (simp add: tick_defs)
qed

theorem crop_rect_truncated_affine_map_witness:
  "affine_map_exact 1280 720 (1 / 4) (1 / 1024) (3 / 4) (3 / 4)
   \<and> (\<exists>cx cy cw ch.
         crop_rect 1280 720 (1 / 4) (1 / 1024) (3 / 4) (3 / 4) = Some (cx, cy, cw, ch)
         \<and> int (unat cx) = 280 \<and> int (unat cy) = 180 \<and> int (unat cw) = 539
         \<and> int (unat ch) = 360)"
  using crop_rect_truncated_affine_map
          [where h = 720 and w = 1280 and t = "1 / 4" and l = "1 / 1024"
             and b = "3 / 4" and r = "3 / 4"]
        affine_map_exact_example
  by simp

text \<open>
  Claim C1 as it is worded fails. For the box (top 0.25, left 1/1024, bottom 0.75,
  right 0.75) on a 1280 x 720 frame the code computes (280, 180, 539, 360), while the
  formula of the specification gives \<open>cropX = 280.703125\<close> and \<open>cropWidth = 539.296875\<close>:
  the components are truncated. For the box (0.7f, 0.7f, 1, 1) the code computes
  (784, 504, 216, 216), while the formula gives values just below 784 and 504: the float
  product is rounded before it is truncated.
\<close>

theorem crop_rect_differs_from_spec_formula:
  "crop_rect 1280 720 (1 / 4) (1 / 1024) (3 / 4) (3 / 4) = Some (280, 180, 539, 360)
   \<and> spec_crop_rect 1280 720 (1 / 4) (1 / 1024) (3 / 4) (3 / 4)
       = (280 + 45 / 64, 180, 539 + 19 / 64, 360)
   \<and> crop_rect 1280 720 f07 f07 1 1 = Some (784, 504, 216, 216)
   \<and> spec_crop_rect 1280 720 f07 f07 1 1
       = (784 - 9 / 1048576, 504 - 9 / 1048576, 216 + 9 / 1048576, 216 + 9 / 1048576)"
  by (simp add: tick_defs f07_def spec_crop_rect_def)

subsection \<open>The crop loop\<close>

declare crop_loop.simps [simp del]
declare overlay_loop.simps [simp del]

lemma tensor_read_Some:
  "tensor_read sz buf k = Some v \<longleftrightarrow> (k + 1) * FLOATSIZE \<le> sz \<and> v = tensor_get buf k"
  by (auto simp: tensor_read_def)

lemma tensor_read_None:
  "tensor_read sz buf k = None \<longleftrightarrow> \<not> (k + 1) * FLOATSIZE \<le> sz"
  by (simp add: tensor_read_def)

lemma crop_iteration_events:
  assumes "crop_iteration c e i = (r, evs)" and "evs \<noteq> []"
  shows "r = None \<and> i < 20
     \<and> of_int (threshold c) / 100 \<le> tensor_get (scores e) i
     \<and> (\<exists>x y w h. evs = [SyslogObject i (label_lookup (labels c) (tensor_get (classes e) i)),
                              CropInterleaved x y w h, JpegToFile i]
           \<and> crop_rect (widthFrameHD c) (heightFrameHD c)
                (tensor_get (locations e) (4 * i)) (tensor_get (locations e) (4 * i + 1))
                (tensor_get (locations e) (4 * i + 2)) (tensor_get (locations e) (4 * i + 3))
              = Some (x, y, w, h))"
  using assms
  by (auto simp: crop_iteration_def tensor_read_Some TENSOR3SIZE_def FLOATSIZE_def
           split: option.splits sum.splits if_splits prod.splits)

lemma crop_iteration_tensor_fault:
  assumes "i < 20"
  shows "fst (crop_iteration c e i) \<noteq> Some (TensorReadOutOfBounds n k)"
  using assms
  by (auto simp: crop_iteration_def tensor_read_def TENSOR1SIZE_def TENSOR2SIZE_def
        TENSOR3SIZE_def FLOATSIZE_def label_lookup_def
      split: option.splits sum.splits if_splits prod.splits)

lemma crop_iteration_faults:
  assumes "i < 20" and "fst (crop_iteration c e i) = Some f"
  shows "f = FloatConversionUndefined"
  using assms
  by (auto simp: crop_iteration_def tensor_read_def TENSOR1SIZE_def TENSOR2SIZE_def
        TENSOR3SIZE_def FLOATSIZE_def label_lookup_def
      split: option.splits sum.splits if_splits prod.splits)

lemma crop_iteration_20:
  "crop_iteration c e 20 = (Some (TensorReadOutOfBounds 1 80), [])"
  by (simp add: crop_iteration_def tensor_read_def TENSOR1SIZE_def FLOATSIZE_def)

lemma crop_loop_events:
  "ev \<in> set (snd (crop_loop c e i)) \<Longrightarrow>
     \<exists>j\<ge>i. real j < detection_count e \<and> ev \<in> set (snd (crop_iteration c e j))"
proof (induction c e i rule: crop_loop.induct)
  case (1 c e i)
  show ?case
  proof (cases "real i < detection_count e")
    case False
    with "1.prems" show ?thesis by (simp add: crop_loop.simps)
  next
    case True
    obtain r evs where it: "crop_iteration c e i = (r, evs)" by (cases "crop_iteration c e i")
    show ?thesis
    proof (cases r)
      case (Some f)
      with "1.prems" True it have "ev \<in> set evs" by (simp add: crop_loop.simps)
      with True it show ?thesis by (intro exI [of _ i]) simp
    next
      case None
      obtain r' evs' where rest: "crop_loop c e (i + 1) = (r', evs')"
        by (cases "crop_loop c e (i + 1)")
      from "1.prems" True it None rest have "ev \<in> set evs \<or> ev \<in> set evs'"
        by (simp add: crop_loop.simps [of c e i])
      then show ?thesis
      proof
        assume "ev \<in> set evs"
        with True it show ?thesis by (intro exI [of _ i]) simp
      next
        assume "ev \<in> set evs'"
        with rest have "ev \<in> set (snd (crop_loop c e (i + 1)))" by simp
        from "1.IH" [OF True it [symmetric] None this]
        obtain j where "i + 1 \<le> j" "real j < detection_count e"
          "ev \<in> set (snd (crop_iteration c e j))" by blast
        then show ?thesis by (intro exI [of _ j]) simp
      qed
    qed
  qed
qed

lemma crop_loop_tensor_fault:
  "detection_count e \<le> 20 \<Longrightarrow> fst (crop_loop c e i) \<noteq> Some (TensorReadOutOfBounds n k)"
proof (induction c e i rule: crop_loop.induct)
  case (1 c e i)
  show ?case
  proof (cases "real i < detection_count e")
    case False
    then show ?thesis by (simp add: crop_loop.simps)
  next
    case True
    with "1.prems" have "real i < 20" by simp
    then have i20: "i < 20" by simp
    obtain r evs where it: "crop_iteration c e i = (r, evs)" by (cases "crop_iteration c e i")
    show ?thesis
    proof (cases r)
      case (Some f)
      with crop_iteration_tensor_fault [OF i20, of c e n k] it True show ?thesis
        by (simp add: crop_loop.simps)
    next
      case None
      obtain r' evs' where rest: "crop_loop c e (i + 1) = (r', evs')"
        by (cases "crop_loop c e (i + 1)")
      from "1.IH" [OF True it [symmetric] None "1.prems"] rest
      have "r' \<noteq> Some (TensorReadOutOfBounds n k)" by simp
      with True it None rest show ?thesis by (simp add: crop_loop.simps [of c e i])
    qed
  qed
qed

lemma crop_loop_beyond_capacity:
  assumes "20 < detection_count e" and "i \<le> 20"
  shows "\<exists>f. fst (crop_loop c e i) = Some f
           \<and> (f = TensorReadOutOfBounds 1 80 \<or> f = FloatConversionUndefined)"
  using assms(2)
proof (induction "20 - i" arbitrary: i)
  case 0
  then have "i = 20" by simp
  with assms(1) show ?case by (simp add: crop_loop.simps [of c e 20] crop_iteration_20)
next
  case (Suc d)
  then have i20: "i < 20" by simp
  then have "real i < 20" by simp
  with assms(1) have True: "real i < detection_count e" by simp
  obtain r evs where it: "crop_iteration c e i = (r, evs)" by (cases "crop_iteration c e i")
  show ?case
  proof (cases r)
    case (Some f)
    with crop_iteration_faults [OF i20, of c e f] it True show ?thesis
      by (simp add: crop_loop.simps [of c e i])
  next
    case None
    obtain r' evs' where rest: "crop_loop c e (i + 1) = (r', evs')"
      by (cases "crop_loop c e (i + 1)")
    from Suc i20 have "d = 20 - (i + 1)" and "i + 1 \<le> 20" by simp_all
    from Suc.hyps(1) [OF this] rest True it None show ?thesis
      by (simp add: crop_loop.simps [of c e i])
  qed
qed

subsection \<open>The overlay loop\<close>

lemma overlay_iteration_frame:
  assumes "overlay_iteration c e i s = (r, s')"
  shows "object_overlays_length s' = object_overlays_length s \<and> out_pos s' = out_pos s
     \<and> stream_width s' = stream_width s \<and> stream_height s' = stream_height s
     \<and> (\<forall>j. j \<noteq> i \<longrightarrow> object_overlays s' j = object_overlays s j)"
  using assms
  by (auto simp: overlay_iteration_def Let_def
           split: option.splits sum.splits if_splits prod.splits)

lemma overlay_iteration_score:
  assumes "overlay_iteration c e i s = (None, s')"
  shows "o_score (object_overlays s' i) = tensor_get (scores e) i"
  using assms
  by (auto simp: overlay_iteration_def Let_def tensor_read_Some
           split: option.splits sum.splits if_splits prod.splits)

lemma overlay_iteration_tensor_fault:
  assumes "i < 5"
  shows "fst (overlay_iteration c e i s) \<noteq> Some (TensorReadOutOfBounds n k)"
  using assms
  by (auto simp: overlay_iteration_def Let_def tensor_read_def TENSOR1SIZE_def TENSOR2SIZE_def
        TENSOR3SIZE_def FLOATSIZE_def label_lookup_def
      split: option.splits sum.splits if_splits prod.splits)

lemma overlay_loop_frame:
  "overlay_loop c e i s = (r, s') \<Longrightarrow>
     object_overlays_length s' = object_overlays_length s \<and> out_pos s' = out_pos s
     \<and> stream_width s' = stream_width s \<and> stream_height s' = stream_height s
     \<and> (\<forall>j<i. object_overlays s' j = object_overlays s j)"
proof (induction c e i s rule: overlay_loop.induct)
  case (1 c e i s)
  show ?case
  proof (cases "i < object_overlays_length s")
    case False
    with "1.prems" show ?thesis by (simp add: overlay_loop.simps)
  next
    case True
    obtain r1 s1 where it: "overlay_iteration c e i s = (r1, s1)"
      by (cases "overlay_iteration c e i s")
    note fr = overlay_iteration_frame [OF it]
    show ?thesis
    proof (cases r1)
      case (Some f)
      with "1.prems" True it have "s' = s1" by (simp add: overlay_loop.simps)
      with fr show ?thesis by simp
    next
      case None
      with "1.prems" True it have "overlay_loop c e (i + 1) s1 = (r, s')"
        by (simp add: overlay_loop.simps [of c e i])
      from "1.IH" [OF True it [symmetric] None this] fr show ?thesis by simp
    qed
  qed
qed

lemma overlay_loop_scores:
  "overlay_loop c e i s = (None, s') \<Longrightarrow>
     \<forall>j. i \<le> j \<and> j < object_overlays_length s \<longrightarrow>
         o_score (object_overlays s' j) = tensor_get (scores e) j"
proof (induction c e i s rule: overlay_loop.induct)
  case (1 c e i s)
  show ?case
  proof (cases "i < object_overlays_length s")
    case False
    then show ?thesis by simp
  next
    case True
    obtain r1 s1 where it: "overlay_iteration c e i s = (r1, s1)"
      by (cases "overlay_iteration c e i s")
    note fr = overlay_iteration_frame [OF it]
    show ?thesis
    proof (cases r1)
      case (Some f)
      with "1.prems" True it show ?thesis by (simp add: overlay_loop.simps)
    next
      case None
      with "1.prems" True it have rest: "overlay_loop c e (i + 1) s1 = (None, s')"
        by (simp add: overlay_loop.simps [of c e i])
      note ih = "1.IH" [OF True it [symmetric] None rest]
      from it None have sc: "o_score (object_overlays s1 i) = tensor_get (scores e) i"
        by (simp add: overlay_iteration_score)
      from overlay_loop_frame [OF rest] have "object_overlays s' i = object_overlays s1 i"
        by simp
      with sc have here: "o_score (object_overlays s' i) = tensor_get (scores e) i" by simp
      show ?thesis
      proof (intro allI impI)
        fix j assume j: "i \<le> j \<and> j < object_overlays_length s"
        show "o_score (object_overlays s' j) = tensor_get (scores e) j"
        proof (cases "j = i")
          case True
          with here show ?thesis by simp
        next
          case False
          with j fr have "i + 1 \<le> j \<and> j < object_overlays_length s1" by simp
          with ih show ?thesis by blast
        qed
      qed
    qed
  qed
qed

lemma overlay_loop_tensor_fault:
  "object_overlays_length s \<le> 5 \<Longrightarrow>
     fst (overlay_loop c e i s) \<noteq> Some (TensorReadOutOfBounds n k)"
proof (induction c e i s rule: overlay_loop.induct)
  case (1 c e i s)
  show ?case
  proof (cases "i < object_overlays_length s")
    case False
    then show ?thesis by (simp add: overlay_loop.simps)
  next
    case True
    with "1.prems" have i5: "i < 5" by simp
    obtain r1 s1 where it: "overlay_iteration c e i s = (r1, s1)"
      by (cases "overlay_iteration c e i s")
    note fr = overlay_iteration_frame [OF it]
    show ?thesis
    proof (cases r1)
      case (Some f)
      with overlay_iteration_tensor_fault [OF i5, of c e s n k] it True show ?thesis
        by (simp add: overlay_loop.simps)
    next
      case None
      from fr "1.prems" have "object_overlays_length s1 \<le> 5" by simp
      from "1.IH" [OF True it [symmetric] None this] True it None show ?thesis
        by (simp add: overlay_loop.simps [of c e i])
    qed
  qed
qed

lemma float_to_size_t_overlay_length:
  assumes "float_to_size_t (if n < of_nat OBJECT_OVERLAYS_MAX_LENGTH then n
                            else of_nat OBJECT_OVERLAYS_MAX_LENGTH) = Some len"
  shows "len \<le> 5 \<and> int len = trunc_zero (min n 5)"
proof (cases "n < 5")
  case True
  with assms have t: "0 \<le> trunc_zero n" and len: "len = nat (trunc_zero n)"
    by (auto simp: float_to_size_t_def OBJECT_OVERLAYS_MAX_LENGTH_def Let_def split: if_splits)
  from True have "trunc_zero n \<le> 5"
    by (auto simp: trunc_zero_def floor_le_iff ceiling_le_iff)
  with t len True show ?thesis by (simp add: min_def)
next
  case False
  with assms have "len = 5"
    by (auto simp: float_to_size_t_def OBJECT_OVERLAYS_MAX_LENGTH_def Let_def trunc_zero_def
             split: if_splits)
  with False show ?thesis by (simp add: min_def trunc_zero_def)
qed

lemma update_overlays_frame:
  assumes "update_overlays c e s = (r, s')"
  shows "out_pos s' = out_pos s \<and> stream_width s' = stream_width s
     \<and> stream_height s' = stream_height s"
  using assms overlay_loop_frame [of c e 0 "s\<lparr>object_overlays_length := len\<rparr>" r s' for len]
  by (auto simp: update_overlays_def split: option.splits)

lemma update_overlays_length:
  assumes "update_overlays c e s = (r, s')" and "object_overlays_length s \<le> 5"
  shows "object_overlays_length s' \<le> 5"
proof (cases "float_to_size_t (if detection_count e < of_nat OBJECT_OVERLAYS_MAX_LENGTH
                 then detection_count e else of_nat OBJECT_OVERLAYS_MAX_LENGTH)")
  case None
  with assms show ?thesis by (simp add: update_overlays_def)
next
  case (Some len)
  with assms(1) have "overlay_loop c e 0 (s\<lparr>object_overlays_length := len\<rparr>) = (r, s')"
    by (simp add: update_overlays_def)
  from overlay_loop_frame [OF this] float_to_size_t_overlay_length [OF Some]
  show ?thesis by simp
qed

lemma update_overlays_done:
  assumes "update_overlays c e s = (None, s')"
  shows "int (object_overlays_length s') = trunc_zero (min (detection_count e) 5)
     \<and> object_overlays_length s' \<le> 5
     \<and> (\<forall>j<object_overlays_length s'.
           o_score (object_overlays s' j) = tensor_get (scores e) j)"
proof (cases "float_to_size_t (if detection_count e < of_nat OBJECT_OVERLAYS_MAX_LENGTH
                 then detection_count e else of_nat OBJECT_OVERLAYS_MAX_LENGTH)")
  case None
  with assms show ?thesis by (simp add: update_overlays_def)
next
  case (Some len)
  with assms(1) have loop: "overlay_loop c e 0 (s\<lparr>object_overlays_length := len\<rparr>) = (None, s')"
    by (simp add: update_overlays_def)
  from overlay_loop_frame [OF loop] have "object_overlays_length s' = len" by simp
  with overlay_loop_scores [OF loop] float_to_size_t_overlay_length [OF Some]
  show ?thesis by simp
qed

lemma update_overlays_tensor_fault:
  "fst (update_overlays c e s) \<noteq> Some (TensorReadOutOfBounds n k)"
proof (cases "float_to_size_t (if detection_count e < of_nat OBJECT_OVERLAYS_MAX_LENGTH
                 then detection_count e else of_nat OBJECT_OVERLAYS_MAX_LENGTH)")
  case None
  then show ?thesis by (simp add: update_overlays_def)
next
  case (Some len)
  from float_to_size_t_overlay_length [OF Some]
  have "object_overlays_length (s\<lparr>object_overlays_length := len\<rparr>) \<le> 5" by simp
  from overlay_loop_tensor_fault [OF this] Some show ?thesis
    by (simp add: update_overlays_def)
qed

subsection \<open>The tick as a whole\<close>

lemma crop_loop_event_kinds:
  assumes "ev \<in> set (snd (crop_loop c e i))"
  shows "\<exists>j x y w h. j < 20 \<and> real j < detection_count e
           \<and> of_int (threshold c) / 100 \<le> tensor_get (scores e) j
           \<and> crop_rect (widthFrameHD c) (heightFrameHD c)
                (tensor_get (locations e) (4 * j)) (tensor_get (locations e) (4 * j + 1))
                (tensor_get (locations e) (4 * j + 2)) (tensor_get (locations e) (4 * j + 3))
              = Some (x, y, w, h)
           \<and> (ev = SyslogObject j (label_lookup (labels c) (tensor_get (classes e) j))
               \<or> ev = CropInterleaved x y w h \<or> ev = JpegToFile j)"
proof -
  from crop_loop_events [OF assms] obtain j
    where j: "real j < detection_count e" "ev \<in> set (snd (crop_iteration c e j))" by blast
  obtain r evs where it: "crop_iteration c e j = (r, evs)" by (cases "crop_iteration c e j")
  with j(2) have "evs \<noteq> []" by auto
  from crop_iteration_events [OF it this] j it show ?thesis by fastforce
qed

lemma post_process_events:
  assumes "ev \<in> set (fst (snd (post_process c e s)))"
  shows "ev = ReturnFrame sdImageProvider \<or> ev = ReturnFrame hdImageProvider
         \<or> ev \<in> set (snd (crop_loop c e 0))"
  using assms
  by (auto simp: post_process_def split: option.splits if_splits prod.splits)

lemma tick_with_externals_ok:
  assumes "externals_ok e"
  shows "tick_result c e s = fst (post_process c e (s\<lparr>out_pos := inf_pos e\<rparr>))"
    and "tick_events c e s
           = events_to_inference s @ fst (snd (post_process c e (s\<lparr>out_pos := inf_pos e\<rparr>)))"
    and "tick_state c e s = snd (snd (post_process c e (s\<lparr>out_pos := inf_pos e\<rparr>)))"
  using assms
  by (cases "out_pos s";
      simp add: tick_events_def tick_result_def tick_state_def events_to_inference_def
        externals_ok_def detect_objects_def acquire_and_preprocess_def rewind_outputs_def
      split: prod.splits)+

lemma tick_with_failing_external:
  assumes "\<not> externals_ok e"
  shows "tick_result c e s = Returned False"
    and "set (tick_events c e s) \<subseteq> set (events_to_inference s)"
    and "object_overlays (tick_state c e s) = object_overlays s"
    and "object_overlays_length (tick_state c e s) = object_overlays_length s"
  using assms
  by (cases "out_pos s";
      auto simp: tick_events_def tick_result_def tick_state_def events_to_inference_def
        externals_ok_def detect_objects_def acquire_and_preprocess_def rewind_outputs_def
      split: prod.splits if_splits)+

lemma tick_with_failing_lseek:
  assumes "\<not> lseek_ok e 1 \<or> \<not> lseek_ok e 2 \<or> \<not> lseek_ok e 3 \<or> \<not> lseek_ok e 4"
  shows "LarodRunJob infReq p \<notin> set (tick_events c e s)"
  using assms
  by (cases "out_pos s")
     (auto simp: tick_events_def detect_objects_def acquire_and_preprocess_def
        rewind_outputs_def split: prod.splits if_splits)

lemma tick_events_cases:
  "(externals_ok e \<and> tick_events c e s
      = events_to_inference s @ fst (snd (post_process c e (s\<lparr>out_pos := inf_pos e\<rparr>))))
   \<or> (\<not> infReq_ok e \<and> tick_events c e s = events_to_inference s)
   \<or> (\<forall>p. LarodRunJob infReq p \<notin> set (tick_events c e s))"
  by (cases "out_pos s")
     (auto simp: tick_events_def events_to_inference_def externals_ok_def
        detect_objects_def acquire_and_preprocess_def rewind_outputs_def
      split: prod.splits if_splits)

lemma post_process_no_job:
  "LarodRunJob j p \<notin> set (fst (snd (post_process c e s)))"
proof
  assume "LarodRunJob j p \<in> set (fst (snd (post_process c e s)))"
  from post_process_events [OF this] have "LarodRunJob j p \<in> set (snd (crop_loop c e 0))"
    by simp
  from crop_loop_event_kinds [OF this] show False by auto
qed

subsection \<open>Order of the jobs and the rewinds\<close>

text \<open>
  Claim C3. Whenever the inference job is started in a tick, the events of the tick
  begin with the two frame fetches, the two copies with their preprocessing jobs, the
  four \<^verbatim>\<open>lseek\<close> calls on the output descriptors and then the inference job, which
  finds all four read positions at 0; no other job follows. If one of the four rewinds
  fails, the tick returns \<^verbatim>\<open>FALSE\<close> and the inference job is not started.
\<close>

theorem outputs_rewound_before_inference:
  "(\<forall>p. LarodRunJob infReq p \<in> set (tick_events c e s) \<longrightarrow>
       p = (0, 0, 0, 0)
       \<and> (\<exists>rest. tick_events c e s
             = [GetLastFrameBlocking sdImageProvider, GetLastFrameBlocking hdImageProvider,
                Memcpy sdImageProvider, LarodRunJob ppReq (out_pos s),
                Memcpy hdImageProvider, LarodRunJob ppReqHD (out_pos s),
                Lseek 1, Lseek 2, Lseek 3, Lseek 4, LarodRunJob infReq (0, 0, 0, 0)] @ rest
             \<and> (\<forall>j q. LarodRunJob j q \<notin> set rest)))
   \<and> (\<not> lseek_ok e 1 \<or> \<not> lseek_ok e 2 \<or> \<not> lseek_ok e 3 \<or> \<not> lseek_ok e 4 \<longrightarrow>
        tick_result c e s = Returned False
        \<and> (\<forall>p. LarodRunJob infReq p \<notin> set (tick_events c e s)))"
proof (intro conjI allI impI)
  fix p assume run: "LarodRunJob infReq p \<in> set (tick_events c e s)"
  from tick_events_cases [of e c s] run
  consider (ok) "tick_events c e s
        = events_to_inference s @ fst (snd (post_process c e (s\<lparr>out_pos := inf_pos e\<rparr>)))"
    | (inf) "tick_events c e s = events_to_inference s"
    by blast
  then have shape: "\<exists>rest. tick_events c e s = events_to_inference s @ rest
      \<and> (\<forall>j q. LarodRunJob j q \<notin> set rest)"
  proof cases
    case ok
    with post_process_no_job show ?thesis by blast
  next
    case inf
    then show ?thesis by simp
  qed
  then obtain rest where rest: "tick_events c e s = events_to_inference s @ rest"
      "\<forall>j q. LarodRunJob j q \<notin> set rest" by blast
  with run show "p = (0, 0, 0, 0)" by (auto simp: events_to_inference_def)
  from rest show "\<exists>rest. tick_events c e s
             = [GetLastFrameBlocking sdImageProvider, GetLastFrameBlocking hdImageProvider,
                Memcpy sdImageProvider, LarodRunJob ppReq (out_pos s),
                Memcpy hdImageProvider, LarodRunJob ppReqHD (out_pos s),
                Lseek 1, Lseek 2, Lseek 3, Lseek 4, LarodRunJob infReq (0, 0, 0, 0)] @ rest
             \<and> (\<forall>j q. LarodRunJob j q \<notin> set rest)"
    unfolding events_to_inference_def by blast
next
  assume "\<not> lseek_ok e 1 \<or> \<not> lseek_ok e 2 \<or> \<not> lseek_ok e 3 \<or> \<not> lseek_ok e 4"
  then have "\<not> externals_ok e" by (auto simp: externals_ok_def)
  then show "tick_result c e s = Returned False" by (rule tick_with_failing_external)
next
  fix p
  assume "\<not> lseek_ok e 1 \<or> \<not> lseek_ok e 2 \<or> \<not> lseek_ok e 3 \<or> \<not> lseek_ok e 4"
  then show "LarodRunJob infReq p \<notin> set (tick_events c e s)"
    by (rule tick_with_failing_lseek)
qed

theorem outputs_rewound_before_inference_witness:
  "LarodRunJob infReq (0, 0, 0, 0)
      \<in> set (tick_events hd_config (good_tick [1 / 4, 1 / 4, 3 / 4, 3 / 4] [0] [3 / 4] [1]) later_state)
   \<and> (\<exists>rest. tick_events hd_config (good_tick [1 / 4, 1 / 4, 3 / 4, 3 / 4] [0] [3 / 4] [1]) later_state
         = [GetLastFrameBlocking sdImageProvider, GetLastFrameBlocking hdImageProvider,
            Memcpy sdImageProvider, LarodRunJob ppReq (320, 80, 80, 4),
            Memcpy hdImageProvider, LarodRunJob ppReqHD (320, 80, 80, 4),
            Lseek 1, Lseek 2, Lseek 3, Lseek 4, LarodRunJob infReq (0, 0, 0, 0)] @ rest)
   \<and> \<not> lseek_ok failing_rewind_tick 3
   \<and> tick_result hd_config failing_rewind_tick later_state = Returned False
   \<and> LarodRunJob infReq (0, 0, 0, 0) \<notin> set (tick_events hd_config failing_rewind_tick later_state)"
proof -
  have run: "LarodRunJob infReq (0, 0, 0, 0)
      \<in> set (tick_events hd_config (good_tick [1 / 4, 1 / 4, 3 / 4, 3 / 4] [0] [3 / 4] [1]) later_state)"
    by (simp add: tick_defs crop_loop.simps overlay_loop.simps)
  have fail: "\<not> lseek_ok failing_rewind_tick 3"
    by (simp add: failing_rewind_tick_def good_tick_def)
  have pos: "out_pos later_state = (320, 80, 80, 4)" by (simp add: later_state_def)
  from outputs_rewound_before_inference
         [of hd_config "good_tick [1 / 4, 1 / 4, 3 / 4, 3 / 4] [0] [3 / 4] [1]" later_state]
       outputs_rewound_before_inference [of hd_config failing_rewind_tick later_state]
       run fail pos
  show ?thesis by auto
qed

subsection \<open>The score threshold\<close>

lemma tick_event_in_crop_loop:
  assumes "ev \<in> set (tick_events c e s)" and "ev \<notin> set (events_to_inference s)"
    and "ev \<noteq> ReturnFrame sdImageProvider" and "ev \<noteq> ReturnFrame hdImageProvider"
  shows "ev \<in> set (snd (crop_loop c e 0))"
proof -
  from assms(1,2) tick_with_failing_external(2) [of e c s] have ok: "externals_ok e" by blast
  from assms(1,2) tick_with_externals_ok(2) [OF ok, of c s]
  have "ev \<in> set (fst (snd (post_process c e (s\<lparr>out_pos := inf_pos e\<rparr>))))" by simp
  from post_process_events [OF this] assms(3,4) show ?thesis by simp
qed

lemma tick_jpeg_events:
  assumes "JpegToFile i \<in> set (tick_events c e s)"
  shows "of_int (threshold c) / 100 \<le> tensor_get (scores e) i"
proof -
  from assms have "JpegToFile i \<in> set (snd (crop_loop c e 0))"
    by (rule tick_event_in_crop_loop) (simp_all add: events_to_inference_def)
  from crop_loop_event_kinds [OF this] show ?thesis by auto
qed

lemma tick_crop_events:
  assumes "CropInterleaved x y w h \<in> set (tick_events c e s)"
  shows "\<exists>i. real i < detection_count e
            \<and> of_int (threshold c) / 100 \<le> tensor_get (scores e) i
            \<and> crop_rect (widthFrameHD c) (heightFrameHD c)
                 (tensor_get (locations e) (4 * i)) (tensor_get (locations e) (4 * i + 1))
                 (tensor_get (locations e) (4 * i + 2)) (tensor_get (locations e) (4 * i + 3))
               = Some (x, y, w, h)"
proof -
  from assms have "CropInterleaved x y w h \<in> set (snd (crop_loop c e 0))"
    by (rule tick_event_in_crop_loop) (simp_all add: events_to_inference_def)
  from crop_loop_event_kinds [OF this] show ?thesis by auto
qed

lemma tick_overlays_written:
  assumes "tick_result c e s = Returned True" and "overlay_enabled c"
    and "float_to_int (detection_count e) \<noteq> Some 0"
  shows "update_overlays c e (s\<lparr>out_pos := inf_pos e\<rparr>) = (None, tick_state c e s)"
proof -
  from assms(1) have ok: "externals_ok e" using tick_with_failing_external(1) [of e c s] by auto
  from assms(1) tick_with_externals_ok(1) [OF ok, of c s]
  have r: "fst (post_process c e (s\<lparr>out_pos := inf_pos e\<rparr>)) = Returned True" by simp
  have st: "tick_state c e s = snd (snd (post_process c e (s\<lparr>out_pos := inf_pos e\<rparr>)))"
    by (rule tick_with_externals_ok(3) [OF ok])
  from r assms(2,3) show ?thesis
    unfolding st
    by (auto simp: post_process_def split: option.splits if_splits prod.splits)
qed

text \<open>
  Claim C2, as amended. Only a detection with \<open>score \<ge> threshold / 100\<close> produces an
  encoded crop: every JPEG file written in a tick, and every rectangle cropped, belongs
  to an index whose score reaches the threshold. The overlay output is not filtered by
  score: after a completed tick with a nonzero count the overlay holds one record for
  each of the first \<open>min(count, 5)\<close> detections, and the record of index \<open>j\<close> carries
  \<^verbatim>\<open>scores[j]\<close> whatever its value.
\<close>

theorem kept_crops_and_unfiltered_overlays:
  "(\<forall>i. JpegToFile i \<in> set (tick_events c e s) \<longrightarrow>
        of_int (threshold c) / 100 \<le> tensor_get (scores e) i)
   \<and> (\<forall>x y w h. CropInterleaved x y w h \<in> set (tick_events c e s) \<longrightarrow>
        (\<exists>i. real i < detection_count e
            \<and> of_int (threshold c) / 100 \<le> tensor_get (scores e) i
            \<and> crop_rect (widthFrameHD c) (heightFrameHD c)
                 (tensor_get (locations e) (4 * i)) (tensor_get (locations e) (4 * i + 1))
                 (tensor_get (locations e) (4 * i + 2)) (tensor_get (locations e) (4 * i + 3))
               = Some (x, y, w, h)))
   \<and> (tick_result c e s = Returned True \<and> overlay_enabled c
        \<and> float_to_int (detection_count e) \<noteq> Some 0 \<longrightarrow>
        int (object_overlays_length (tick_state c e s)) = trunc_zero (min (detection_count e) 5)
        \<and> (\<forall>j<object_overlays_length (tick_state c e s).
              o_score (object_overlays (tick_state c e s) j) = tensor_get (scores e) j))"
proof (intro conjI)
  show "\<forall>i. JpegToFile i \<in> set (tick_events c e s) \<longrightarrow>
        of_int (threshold c) / 100 \<le> tensor_get (scores e) i"
    using tick_jpeg_events by blast
  show "\<forall>x y w h. CropInterleaved x y w h \<in> set (tick_events c e s) \<longrightarrow>
        (\<exists>i. real i < detection_count e
            \<and> of_int (threshold c) / 100 \<le> tensor_get (scores e) i
            \<and> crop_rect (widthFrameHD c) (heightFrameHD c)
                 (tensor_get (locations e) (4 * i)) (tensor_get (locations e) (4 * i + 1))
                 (tensor_get (locations e) (4 * i + 2)) (tensor_get (locations e) (4 * i + 3))
               = Some (x, y, w, h))"
    using tick_crop_events by blast
  show "tick_result c e s = Returned True \<and> overlay_enabled c
        \<and> float_to_int (detection_count e) \<noteq> Some 0 \<longrightarrow>
        int (object_overlays_length (tick_state c e s)) = trunc_zero (min (detection_count e) 5)
        \<and> (\<forall>j<object_overlays_length (tick_state c e s).
              o_score (object_overlays (tick_state c e s) j) = tensor_get (scores e) j)"
  proof
    assume "tick_result c e s = Returned True \<and> overlay_enabled c
        \<and> float_to_int (detection_count e) \<noteq> Some 0"
    then have "update_overlays c e (s\<lparr>out_pos := inf_pos e\<rparr>) = (None, tick_state c e s)"
      by (simp add: tick_overlays_written)
    from update_overlays_done [OF this]
    show "int (object_overlays_length (tick_state c e s)) = trunc_zero (min (detection_count e) 5)
        \<and> (\<forall>j<object_overlays_length (tick_state c e s).
              o_score (object_overlays (tick_state c e s) j) = tensor_get (scores e) j)"
      by simp
  qed
qed

theorem kept_crops_and_unfiltered_overlays_witness:
  "JpegToFile 0 \<in> set (tick_events hd_config (one_detection 0 (3 / 4)) first_state)
   \<and> CropInterleaved 460 180 360 360
        \<in> set (tick_events hd_config (one_detection 0 (3 / 4)) first_state)
   \<and> of_int (threshold hd_config) / 100 \<le> tensor_get (scores (one_detection 0 (3 / 4))) 0
   \<and> tick_result hd_config (one_detection 0 (1 / 4)) first_state = Returned True
   \<and> overlay_enabled hd_config
   \<and> float_to_int (detection_count (one_detection 0 (1 / 4))) \<noteq> Some 0
   \<and> object_overlays_length (tick_state hd_config (one_detection 0 (1 / 4)) first_state) = 1
   \<and> o_score (object_overlays (tick_state hd_config (one_detection 0 (1 / 4)) first_state) 0)
        = 1 / 4"
proof -
  have ev: "tick_events hd_config (one_detection 0 (3 / 4)) first_state
      = events_to_inference first_state
        @ [SyslogObject 0 (Inr ''person''), CropInterleaved 460 180 360 360, JpegToFile 0,
           ReturnFrame sdImageProvider, ReturnFrame hdImageProvider]"
    by (simp add: tick_defs)
  have r: "tick_result hd_config (one_detection 0 (1 / 4)) first_state = Returned True"
    by (simp add: tick_defs)
  have ov: "overlay_enabled hd_config" by (simp add: hd_config_def)
  have n: "float_to_int (detection_count (one_detection 0 (1 / 4))) \<noteq> Some 0"
    by (simp add: tick_defs)
  have m: "trunc_zero (min (detection_count (one_detection 0 (1 / 4))) 5) = 1"
    by (simp add: tick_defs)
  have sc: "tensor_get (scores (one_detection 0 (1 / 4))) 0 = 1 / 4"
    by (simp add: tick_defs)
  from kept_crops_and_unfiltered_overlays [of hd_config "one_detection 0 (3 / 4)" first_state]
       kept_crops_and_unfiltered_overlays [of hd_config "one_detection 0 (1 / 4)" first_state]
       ev r ov n m sc
  show ?thesis by auto
qed

text \<open>
  Claim C2 as it is worded fails: with a threshold of 50 percent, a single detection of
  score 0.25 produces no crop, but the tick writes its overlay record.
\<close>

theorem overlay_record_below_threshold:
  "tick_result hd_config (one_detection 0 (1 / 4)) first_state = Returned True
   \<and> (1 / 4 :: real) < of_int (threshold hd_config) / 100
   \<and> tick_events hd_config (one_detection 0 (1 / 4)) first_state
       = [GetLastFrameBlocking sdImageProvider, GetLastFrameBlocking hdImageProvider,
          Memcpy sdImageProvider, LarodRunJob ppReq (0, 0, 0, 0),
          Memcpy hdImageProvider, LarodRunJob ppReqHD (0, 0, 0, 0),
          Lseek 1, Lseek 2, Lseek 3, Lseek 4, LarodRunJob infReq (0, 0, 0, 0),
          ReturnFrame sdImageProvider, ReturnFrame hdImageProvider]
   \<and> object_overlays_length (tick_state hd_config (one_detection 0 (1 / 4)) first_state) = 1
   \<and> object_overlays (tick_state hd_config (one_detection 0 (1 / 4)) first_state) 0
       = no_overlay\<lparr>o_top := 180, o_bottom := 540, o_left := 460, o_right := 820,
                    o_class := ''person'', o_score := 1 / 4\<rparr>"
  by (simp add: tick_defs)

subsection \<open>Releasing the frames\<close>

text \<open>
  Claim C5 holds on the path that reaches the end of the function and fails on the early
  return of line 928: a tick whose count is 0 returns \<^verbatim>\<open>TRUE\<close> and its last event is
  the inference job, so neither frame is given back to its provider. The same camera
  with one detection ends its tick with the two \<^verbatim>\<open>returnFrame\<close> calls.
\<close>

theorem zero_count_tick_keeps_both_frames:
  "tick_result hd_config (good_tick [] [] [] [0]) later_state = Returned True
   \<and> tick_events hd_config (good_tick [] [] [] [0]) later_state
       = [GetLastFrameBlocking sdImageProvider, GetLastFrameBlocking hdImageProvider,
          Memcpy sdImageProvider, LarodRunJob ppReq (320, 80, 80, 4),
          Memcpy hdImageProvider, LarodRunJob ppReqHD (320, 80, 80, 4),
          Lseek 1, Lseek 2, Lseek 3, Lseek 4, LarodRunJob infReq (0, 0, 0, 0)]
   \<and> tick_events hd_config (one_detection 0 (3 / 4)) later_state
       = [GetLastFrameBlocking sdImageProvider, GetLastFrameBlocking hdImageProvider,
          Memcpy sdImageProvider, LarodRunJob ppReq (320, 80, 80, 4),
          Memcpy hdImageProvider, LarodRunJob ppReqHD (320, 80, 80, 4),
          Lseek 1, Lseek 2, Lseek 3, Lseek 4, LarodRunJob infReq (0, 0, 0, 0),
          SyslogObject 0 (Inr ''person''), CropInterleaved 460 180 360 360, JpegToFile 0,
          ReturnFrame sdImageProvider, ReturnFrame hdImageProvider]"
  by (simp add: tick_defs)

subsection \<open>A tick without detections\<close>

text \<open>
  Claim C8 fails on the overlay. The first tick of the camera sees one detection and
  leaves one overlay record. The next tick reads a count of 0: it returns \<^verbatim>\<open>TRUE\<close> at
  line 928, before the statement of line 986 that would set the length of the overlay
  array to 0, so the overlay still holds the record of the tick before and the result of
  the tick is not empty.
\<close>

theorem zero_count_tick_keeps_stale_overlays:
  "tick_result hd_config (one_detection 0 (3 / 4)) first_state = Returned True
   \<and> object_overlays_length (tick_state hd_config (one_detection 0 (3 / 4)) first_state) = 1
   \<and> tick_result hd_config (good_tick [] [] [] [0])
        (tick_state hd_config (one_detection 0 (3 / 4)) first_state) = Returned True
   \<and> object_overlays_length
        (tick_state hd_config (good_tick [] [] [] [0])
           (tick_state hd_config (one_detection 0 (3 / 4)) first_state)) = 1
   \<and> object_overlays
        (tick_state hd_config (good_tick [] [] [] [0])
           (tick_state hd_config (one_detection 0 (3 / 4)) first_state)) 0
       = no_overlay\<lparr>o_top := 180, o_bottom := 540, o_left := 460, o_right := 820,
                    o_class := ''person'', o_score := 3 / 4\<rparr>"
  by (simp add: tick_defs)

subsection \<open>The overlay rectangle\<close>

lemma get_coordinates_ignores_frame_size:
  "get_coordinates w h frame_width frame_height t l b r = get_coordinates w h w h t l b r"
  by (simp add: get_coordinates_def)

text \<open>
  Claim C4 fails where the stream and the HD frame differ: \<open>get_coordinates\<close> receives
  the stream dimensions and does not use them. With the stream dimensions at their
  initial 1280 x 720 and a 1920 x 1080 HD frame, the box (0.25, 0.25, 0.75, 0.75) gets
  the overlay rectangle top 270, left 690, bottom 810, right 1230, which are HD pixels:
  the bottom edge lies beyond the height of the stream. In stream pixels the same affine
  map gives top 180, left 460, bottom 540, right 820.
\<close>

theorem overlay_rectangle_in_hd_space:
  "widthFrameHD full_hd_config = 1920 \<and> heightFrameHD full_hd_config = 1080
   \<and> stream_width first_state = 1280 \<and> stream_height first_state = 720
   \<and> get_coordinates 1920 1080 1280 720 (1 / 4) (1 / 4) (3 / 4) (3 / 4)
       = Some (270, 690, 810, 1230)
   \<and> tick_result full_hd_config (one_detection 0 (3 / 4)) first_state = Returned True
   \<and> object_overlays (tick_state full_hd_config (one_detection 0 (3 / 4)) first_state) 0
       = no_overlay\<lparr>o_top := 270, o_bottom := 810, o_left := 690, o_right := 1230,
                    o_class := ''person'', o_score := 3 / 4\<rparr>"
  by (simp add: tick_defs)

subsection \<open>The length of a label\<close>

text \<open>
  Claim C9 fails by one byte: for a line of 62 letters the terminator is written at
  offset 61 of the label, so the stored label has 61 bytes, not 60.
\<close>

theorem parseLabels_long_line_keeps_61_bytes:
  "parseLabels long_line_file
     = Inr (Some [''aaaaaaaaaaaaaaaaaaaaaaaaaaaaaaaaaaaaaaaaaaaaaaaaaaaaaaaaaaaaa''])
   \<and> length ''aaaaaaaaaaaaaaaaaaaaaaaaaaaaaaaaaaaaaaaaaaaaaaaaaaaaaaaaaaaaa'' = 61"
  by (simp add: parseLabels_def long_line_file_def readable_file_def newline_def NUL_def
        LINE_MAX_LEN_def strnlen_def c_string_def Let_def)

subsection \<open>The class index\<close>






subsection \<open>The crop rectangle and the bounds of the HD frame\<close>




subsection \<open>Reads of the output buffers\<close>

lemma post_process_tensor_fault:
  assumes "detection_count e \<le> 20"
  shows "fst (post_process c e s) \<noteq> Undefined (TensorReadOutOfBounds n k)"
  using assms crop_loop_tensor_fault [of e c 0 n k] update_overlays_tensor_fault [of c e s n k]
  by (auto simp: post_process_def split: option.splits if_splits prod.splits)

lemma post_process_beyond_capacity:
  assumes "20 < detection_count e"
  shows "\<exists>f. fst (post_process c e s) = Undefined f
           \<and> (f = TensorReadOutOfBounds 1 80 \<or> f = FloatConversionUndefined)"
proof (cases "float_to_int (detection_count e)")
  case None
  then show ?thesis by (simp add: post_process_def)
next
  case (Some k)
  from assms have "20 \<le> trunc_zero (detection_count e)"
    by (simp add: trunc_zero_def le_floor_iff)
  with Some have k: "k \<noteq> 0" by (auto simp: float_to_int_def Let_def split: if_splits)
  from crop_loop_beyond_capacity [OF assms, of 0 c] obtain f
    where f: "fst (crop_loop c e 0) = Some f"
      "f = TensorReadOutOfBounds 1 80 \<or> f = FloatConversionUndefined" by auto
  from Some k f(1) have "fst (post_process c e s) = Undefined f"
    by (auto simp: post_process_def split: prod.splits)
  with f(2) show ?thesis by blast
qed

lemma post_process_overlay_length:
  assumes "object_overlays_length s \<le> 5"
  shows "object_overlays_length (snd (snd (post_process c e s))) \<le> 5"
  using assms update_overlays_length [of c e s]
  by (auto simp: post_process_def split: option.splits if_splits prod.splits)

lemma tick_state_overlay_length:
  assumes "object_overlays_length s \<le> 5"
  shows "object_overlays_length (tick_state c e s) \<le> 5"
proof (cases "externals_ok e")
  case True
  from assms have "object_overlays_length (s\<lparr>out_pos := inf_pos e\<rparr>) \<le> 5" by simp
  from post_process_overlay_length [OF this] tick_with_externals_ok(3) [OF True]
  show ?thesis by simp
next
  case False
  with assms show ?thesis by (simp add: tick_with_failing_external(4))
qed

text \<open>
  Claim C10. The crop loop runs for every index below the count without comparing the
  count with the capacity of a buffer. When the count is at most 20 no read of a tick
  leaves a mapped output buffer. When the count exceeds 20 a tick whose external calls
  succeed cannot complete: the loop goes on to index 20, where it reads float 80 of the
  first buffer, which holds 80 floats, unless an undefined conversion stops the run
  before. The overlay loop is bounded on its own: a tick that writes the overlay sets
  its length to the count truncated, capped at 5, so the length never exceeds 5.
\<close>

theorem tensor_reads_within_capacity:
  "(detection_count e \<le> 20 \<longrightarrow>
      (\<forall>n k. tick_result c e s \<noteq> Undefined (TensorReadOutOfBounds n k)))
   \<and> (externals_ok e \<and> 20 < detection_count e \<longrightarrow>
      (\<exists>f. tick_result c e s = Undefined f
          \<and> (f = TensorReadOutOfBounds 1 80 \<or> f = FloatConversionUndefined)))
   \<and> (tick_result c e s = Returned True \<and> overlay_enabled c
        \<and> float_to_int (detection_count e) \<noteq> Some 0 \<longrightarrow>
        int (object_overlays_length (tick_state c e s)) = trunc_zero (min (detection_count e) 5)
        \<and> object_overlays_length (tick_state c e s) \<le> 5)
   \<and> (object_overlays_length s \<le> 5 \<longrightarrow> object_overlays_length (tick_state c e s) \<le> 5)"
proof (intro conjI impI allI)
  fix n k assume le: "detection_count e \<le> 20"
  show "tick_result c e s \<noteq> Undefined (TensorReadOutOfBounds n k)"
  proof (cases "externals_ok e")
    case True
    from tick_with_externals_ok(1) [OF True] post_process_tensor_fault [OF le]
    show ?thesis by simp
  next
    case False
    then show ?thesis by (simp add: tick_with_failing_external(1))
  qed
next
  assume "externals_ok e \<and> 20 < detection_count e"
  then have ok: "externals_ok e" and gt: "20 < detection_count e" by simp_all
  from tick_with_externals_ok(1) [OF ok] post_process_beyond_capacity [OF gt]
  show "\<exists>f. tick_result c e s = Undefined f
          \<and> (f = TensorReadOutOfBounds 1 80 \<or> f = FloatConversionUndefined)"
    by simp
next
  assume a: "tick_result c e s = Returned True \<and> overlay_enabled c
        \<and> float_to_int (detection_count e) \<noteq> Some 0"
  then have "update_overlays c e (s\<lparr>out_pos := inf_pos e\<rparr>) = (None, tick_state c e s)"
    by (simp add: tick_overlays_written)
  from update_overlays_done [OF this]
  show "int (object_overlays_length (tick_state c e s)) = trunc_zero (min (detection_count e) 5)"
    and "object_overlays_length (tick_state c e s) \<le> 5"
    by simp_all
next
  assume "object_overlays_length s \<le> 5"
  then show "object_overlays_length (tick_state c e s) \<le> 5"
    by (rule tick_state_overlay_length)
qed

theorem tensor_reads_within_capacity_witness:
  "detection_count seven_detections \<le> 20
   \<and> tick_result hd_config seven_detections first_state = Returned True
   \<and> overlay_enabled hd_config
   \<and> float_to_int (detection_count seven_detections) \<noteq> Some 0
   \<and> object_overlays_length first_state = 0
   \<and> object_overlays_length (tick_state hd_config seven_detections first_state) = 5
   \<and> externals_ok (good_tick [] [] [] [21])
   \<and> 20 < detection_count (good_tick [] [] [] [21])
   \<and> tick_result hd_config (good_tick [] [] [] [21]) first_state
       = Undefined (TensorReadOutOfBounds 1 80)"
proof -
  have c7: "detection_count seven_detections = 7" by (simp add: tick_defs)
  have r7: "tick_result hd_config seven_detections first_state = Returned True"
    by (simp add: tick_defs)
  have ov: "overlay_enabled hd_config" by (simp add: hd_config_def)
  have n7: "float_to_int (detection_count seven_detections) \<noteq> Some 0"
    by (simp add: tick_defs)
  have l0: "object_overlays_length first_state = 0" by (simp add: first_state_def)
  have t5: "trunc_zero (min 7 5) = 5" by (simp add: trunc_zero_def)
  have ok: "externals_ok (good_tick [] [] [] [21])" by (simp add: tick_defs)
  have c21: "20 < detection_count (good_tick [] [] [] [21])" by (simp add: tick_defs)
  have r: "tick_result hd_config (good_tick [] [] [] [21]) first_state
       = Undefined (TensorReadOutOfBounds 1 80)"
    by (simp add: tick_defs)
  from tensor_reads_within_capacity [of seven_detections hd_config first_state]
       tensor_reads_within_capacity [of "good_tick [] [] [] [21]" hd_config first_state]
       c7 r7 ov n7 l0 t5 ok c21 r
  show ?thesis by simp
qed

end
